theory Spec2Isabelle
  imports Main "HOL-Library.Word"
begin

section \<open>The on-chain event indexer (eventIndexer.ts)\<close>

text \<open>
  A shallow embedding of the class \<open>EventIndexer\<close>: the decoder
  (\<open>processEvents\<close> and the four \<open>decode*\<close> helpers), the persistence
  functions (\<open>storeEvents\<close>, \<open>getIndexerState\<close>, \<open>updateIndexerState\<close>),
  one cycle (\<open>indexEvents\<close>) and the controller (\<open>start\<close>, \<open>stop\<close>,
  \<open>poll\<close>). JavaScript values that the code can observe as \<open>undefined\<close>,
  \<open>null\<close> or \<open>NaN\<close> are kept as such; every \<open>throw\<close> is a value:
  \<open>Inl\<close> of a sum type, \<open>Throws\<close> for an accessor of the SDK.
\<close>

subsection \<open>Decimal rendering of integers\<close>

text \<open>The text of an integral number, for \<open>+\<close> with a string operand.\<close>

definition digit_char :: "nat \<Rightarrow> char" where
  "digit_char d = ''0123456789'' ! d"

fun nat_toString :: "nat \<Rightarrow> string" where
  "nat_toString n =
     (if n < 10 then [digit_char n] else nat_toString (n div 10) @ [digit_char (n mod 10)])"

declare nat_toString.simps [simp del]

definition int_toString :: "int \<Rightarrow> string" where
  "int_toString i = (if i < 0 then CHR ''-'' # nat_toString (nat (- i)) else nat_toString (nat i))"

subsection \<open>JavaScript values\<close>

text \<open>
  The values a property read of a database row or of the default state object can give.
  \<open>JNumber\<close> holds the integral numbers (the columns read are \<open>integer\<close>);
  \<open>JNaN\<close> is the one non-integral number the code can produce.
\<close>

datatype jsval = JUndefined | JNull | JNumber int | JNaN | JString string

type_synonym jsobject = "(string \<times> jsval) list"

text \<open>\<open>o.k\<close>: the value of an own property, \<open>undefined\<close> when the object has none of that name.\<close>

definition js_get :: "jsobject \<Rightarrow> string \<Rightarrow> jsval" where
  "js_get obj k = (case map_of obj k of None \<Rightarrow> JUndefined | Some v \<Rightarrow> v)"

fun js_toString :: "jsval \<Rightarrow> string" where
  "js_toString JUndefined = ''undefined''"
| "js_toString JNull = ''null''"
| "js_toString (JNumber n) = int_toString n"
| "js_toString JNaN = ''NaN''"
| "js_toString (JString s) = s"

text \<open>\<open>ToNumber\<close>: \<open>None\<close> stands for NaN. A string operand never reaches it in \<open>js_plus\<close>.\<close>

fun js_toNumber :: "jsval \<Rightarrow> int option" where
  "js_toNumber JUndefined = None"
| "js_toNumber JNull = Some 0"
| "js_toNumber (JNumber n) = Some n"
| "js_toNumber JNaN = None"
| "js_toNumber (JString s) = None"

fun is_JString :: "jsval \<Rightarrow> bool" where
  "is_JString (JString s) = True"
| "is_JString v = False"

text \<open>The binary \<open>+\<close>: concatenation when an operand is a string, numeric addition otherwise.\<close>

definition js_plus :: "jsval \<Rightarrow> jsval \<Rightarrow> jsval" where
  "js_plus a b =
     (if is_JString a \<or> is_JString b then JString (js_toString a @ js_toString b)
      else (case (js_toNumber a, js_toNumber b) of
              (Some x, Some y) \<Rightarrow> JNumber (x + y)
            | _ \<Rightarrow> JNaN))"

subsection \<open>Values of the Stellar SDK\<close>

datatype error =
    TypeError
  | QueryFailed
  | UniqueViolation
  | DataError
  | InFailedTransaction
  | RpcError

text \<open>
  \<open>xdr.ScVal\<close> is a tagged union. The arms the indexer reads are \<open>sym\<close>,
  \<open>address\<close>, \<open>i128\<close> and \<open>u32\<close>; \<open>ScvBool\<close>, \<open>ScvU64\<close> and
  \<open>ScvString\<close> stand for the other arms that carry a payload, \<open>ScvVoid\<close> for the
  arms that carry none.
\<close>

datatype scval =
    ScvSymbol string
  | ScvAddress string
  | ScvI128 "128 word"
  | ScvU32 "32 word"
  | ScvBool bool
  | ScvU64 "64 word"
  | ScvString string
  | ScvVoid

text \<open>
  What a call of an arm accessor (\<open>x.sym()\<close>, \<open>x.address()\<close>, \<open>x.i128()\<close>,
  \<open>x.u32()\<close>) does: it returns the payload of its own arm, throws on a value of
  another arm that carries a payload, and returns \<open>undefined\<close> on a value that
  carries none.
\<close>

datatype 'a got = Throws error | Undefined | Got 'a

fun sym :: "scval \<Rightarrow> string got" where
  "sym (ScvSymbol s) = Got s"
| "sym ScvVoid = Undefined"
| "sym x = Throws TypeError"

fun address :: "scval \<Rightarrow> string got" where
  "address (ScvAddress a) = Got a"
| "address ScvVoid = Undefined"
| "address x = Throws TypeError"

fun i128 :: "scval \<Rightarrow> 128 word got" where
  "i128 (ScvI128 w) = Got w"
| "i128 ScvVoid = Undefined"
| "i128 x = Throws TypeError"

fun u32 :: "scval \<Rightarrow> 32 word got" where
  "u32 (ScvU32 w) = Got w"
| "u32 ScvVoid = Undefined"
| "u32 x = Throws TypeError"

text \<open>
  \<open>x.address()\<close> and \<open>x.i128()\<close> return XDR objects (\<open>ScAddress\<close>,
  \<open>Int128Parts\<close>) that have no \<open>toString\<close> of their own: the call
  \<open>.toString()\<close> on them is that of \<open>Object.prototype\<close>, whatever the payload.
\<close>

definition object_toString :: string where
  "object_toString = ''[object Object]''"

subsection \<open>Raw events and decoded events\<close>

text \<open>
  \<open>rpc.Api.EventResponse\<close>. The field \<open>type\<close> is the string the source sends;
  \<open>contractId\<close> is optional; \<open>topic\<close> is the list of topic values. The contract
  object's \<open>toString\<close> is its identifier, held here as the string itself. The
  timestamp \<open>ledgerClosedAt\<close> and the \<open>Date\<close> made of it are kept as the text
  the source sends.
\<close>

record raw_event =
  etype :: string
  eid :: string
  ledger :: int
  ledgerClosedAt :: string
  txHash :: string
  contractId :: "string option"
  topic :: "scval list"
  evalue :: scval

datatype event_type = LoanRequested | LoanApproved | LoanRepaid

text \<open>
  The interface \<open>LoanEvent\<close>; an optional field is an \<open>option\<close>, and
  \<open>None\<close> is also the field that holds \<open>undefined\<close>.
\<close>

record loan_event =
  eventId :: string
  eventType :: event_type
  loanId :: "nat option"
  borrower :: string
  amount :: "string option"
  le_ledger :: int
  le_ledgerClosedAt :: string
  le_txHash :: string
  le_contractId :: string
  topics :: "string list"
  le_value :: string

subsection \<open>The decoder\<close>

text \<open>
  Each helper is \<open>try { return ...; } catch { return default; }\<close>. On a value
  without payload the accessor returns \<open>undefined\<close>: in the first three helpers
  the call \<open>.toString()\<close> on it throws and the \<open>catch\<close> gives the default;
  \<open>decodeLoanId\<close> calls nothing on it and returns it.
\<close>

definition decodeEventType :: "scval \<Rightarrow> event_type option" where
  "decodeEventType x =
     (case sym x of
        Throws e \<Rightarrow> None
      | Undefined \<Rightarrow> None
      | Got s \<Rightarrow>
          if s = ''LoanRequested'' then Some LoanRequested
          else if s = ''LoanApproved'' then Some LoanApproved
          else if s = ''LoanRepaid'' then Some LoanRepaid
          else None)"

definition decodeAddress :: "scval \<Rightarrow> string" where
  "decodeAddress x =
     (case address x of Throws e \<Rightarrow> '''' | Undefined \<Rightarrow> '''' | Got a \<Rightarrow> object_toString)"

definition decodeAmount :: "scval \<Rightarrow> string" where
  "decodeAmount x =
     (case i128 x of Throws e \<Rightarrow> ''0'' | Undefined \<Rightarrow> ''0'' | Got w \<Rightarrow> object_toString)"

definition decodeLoanId :: "scval \<Rightarrow> nat option" where
  "decodeLoanId x =
     (case u32 x of Throws e \<Rightarrow> Some 0 | Undefined \<Rightarrow> None | Got w \<Rightarrow> Some (unat w))"

text \<open>\<open>xs[i]\<close> of JavaScript: \<open>undefined\<close> (here \<open>None\<close>) out of range.\<close>

definition js_index :: "'a list \<Rightarrow> nat \<Rightarrow> 'a option" where
  "js_index xs i = (if i < length xs then Some (xs ! i) else None)"

text \<open>
  The body of the loop of \<open>processEvents\<close> for one raw event: \<open>None\<close> is
  \<open>continue\<close>, \<open>Some evt\<close> is \<open>result.push(evt)\<close>. The parameter \<open>toXDR\<close> is the
  SDK's base64 XDR encoding of a value. A topic is an object, hence truthy whenever it
  is present. Nothing in the body throws, so the \<open>catch\<close> of the loop is never entered.
\<close>

definition processEvent :: "(scval \<Rightarrow> string) \<Rightarrow> raw_event \<Rightarrow> loan_event option" where
  "processEvent toXDR e =
     (if etype e \<noteq> ''contract'' then None
      else
        (case js_index (topic e) 0 of
           None \<Rightarrow> None
         | Some t0 \<Rightarrow>
        (case js_index (topic e) 1 of
           None \<Rightarrow> None
         | Some t1 \<Rightarrow>
        (case contractId e of
           None \<Rightarrow> None
         | Some cid \<Rightarrow>
        (case decodeEventType t0 of
           None \<Rightarrow> None
         | Some ty \<Rightarrow>
             let evt = \<lparr> eventId = eid e, eventType = ty, loanId = None,
                         borrower = decodeAddress t1,
                         amount = Some (decodeAmount (evalue e)),
                         le_ledger = ledger e, le_ledgerClosedAt = ledgerClosedAt e,
                         le_txHash = txHash e, le_contractId = cid,
                         topics = map toXDR (topic e), le_value = toXDR (evalue e) \<rparr>
             in Some (case js_index (topic e) 2 of
                        None \<Rightarrow> evt
                      | Some t2 \<Rightarrow> evt \<lparr> loanId := decodeLoanId t2 \<rparr>))))))"

fun processEvents :: "(scval \<Rightarrow> string) \<Rightarrow> raw_event list \<Rightarrow> loan_event list" where
  "processEvents toXDR [] = []"
| "processEvents toXDR (e # es) =
     (case processEvent toXDR e of
        None \<Rightarrow> processEvents toXDR es
      | Some evt \<Rightarrow> evt # processEvents toXDR es)"

subsection \<open>The database\<close>

text \<open>
  The tables of the migration \<open>loan-events-schema\<close>. Of \<open>loan_events\<close> the
  column \<open>created_at\<close>, and of \<open>indexer_state\<close> the column \<open>updated_at\<close>, are
  left out: the indexer never reads them. The column \<open>topics\<close> holds the list that
  \<open>JSON.stringify\<close> serialises.
\<close>

record event_row =
  r_id :: nat
  r_event_id :: string
  r_event_type :: event_type
  r_loan_id :: "nat option"
  r_borrower :: string
  r_amount :: "string option"
  r_ledger :: int
  r_ledger_closed_at :: string
  r_tx_hash :: string
  r_contract_id :: string
  r_topics :: "string list"
  r_value :: string

record state_row =
  s_id :: nat
  last_indexed_ledger :: int
  last_indexed_cursor :: "string option"

record tables =
  loan_events :: "event_row list"
  indexer_state :: "state_row list"

text \<open>The column types of the migration, as far as a parameter of the indexer can miss them.\<close>

definition int4 :: "int \<Rightarrow> bool" where
  "int4 i \<longleftrightarrow> - 2147483648 \<le> i \<and> i \<le> 2147483647"

definition varchar255 :: "string \<Rightarrow> bool" where
  "varchar255 s \<longleftrightarrow> length s \<le> 255"

definition is_digit :: "char \<Rightarrow> bool" where
  "is_digit c \<longleftrightarrow> c \<in> set ''0123456789''"

definition drop_sign :: "string \<Rightarrow> string" where
  "drop_sign s =
     (case s of [] \<Rightarrow> [] | c # cs \<Rightarrow> if c = CHR ''+'' \<or> c = CHR ''-'' then cs else s)"

definition exponent_syntax :: "string \<Rightarrow> bool" where
  "exponent_syntax s =
     (case s of
        [] \<Rightarrow> True
      | c # cs \<Rightarrow> (c = CHR ''e'' \<or> c = CHR ''E'')
                 \<and> drop_sign cs \<noteq> [] \<and> list_all is_digit (drop_sign cs))"

text \<open>
  The text that the type \<open>numeric\<close> reads: a sign, digits with at most one point
  and at least one digit, an exponent. (Blanks around it and the special values are left
  out; the indexer sends \<open>"0"\<close>, \<open>"[object Object]"\<close> or \<open>null\<close>.)
\<close>

definition numeric_syntax :: "string \<Rightarrow> bool" where
  "numeric_syntax s =
     (let s1 = drop_sign s; ip = takeWhile is_digit s1; r1 = dropWhile is_digit s1
      in case r1 of
           [] \<Rightarrow> ip \<noteq> []
         | c # cs \<Rightarrow>
             if c = CHR ''.''
             then (ip \<noteq> [] \<or> takeWhile is_digit cs \<noteq> [])
                    \<and> exponent_syntax (dropWhile is_digit cs)
             else ip \<noteq> [] \<and> exponent_syntax r1)"

definition row_accepted :: "event_row \<Rightarrow> bool" where
  "row_accepted r \<longleftrightarrow>
     varchar255 (r_event_id r)
     \<and> (case r_loan_id r of None \<Rightarrow> True | Some n \<Rightarrow> int4 (int n))
     \<and> varchar255 (r_borrower r)
     \<and> (case r_amount r of None \<Rightarrow> True | Some a \<Rightarrow> numeric_syntax a)
     \<and> int4 (r_ledger r)
     \<and> varchar255 (r_tx_hash r)
     \<and> varchar255 (r_contract_id r)"

text \<open>
  What a transaction has written and not yet committed, and the state of a client's
  transaction: open with its writes, or aborted by an error and waiting for its end.
\<close>

datatype db_write = InsertRow event_row | SetState int string

datatype txn = Open "db_write list" | Aborted

text \<open>
  The database behind \<open>query\<close>, which is \<open>pool.query\<close>: each statement runs on
  the client that the pool hands out for it, and the pool is shared with the request
  handlers, so two statements of the indexer need not run on the same client. The
  state is the committed tables; for each client of the pool, its transaction if it has
  one; the sequence behind \<open>loan_events.id\<close> (sequences are not transactional); the
  clients that the pool will hand out, one entry per statement still to come, client 0
  past the end of the list; and a schedule of faults, one entry per statement still to
  come: \<open>True\<close> makes that statement fail before it reaches the database, whatever
  it is; past the end of the schedule no statement fails for an outside reason.
\<close>

record db =
  committed :: tables
  pending :: "nat \<Rightarrow> txn option"
  event_seq :: nat
  pool :: "nat list"
  faults :: "bool list"

datatype statement =
    Begin
  | Commit
  | Rollback
  | SelectEventId string
  | InsertEvent event_row
  | SelectState
  | UpdateState int string

text \<open>\<open>ORDER BY id DESC LIMIT 1\<close> on \<open>indexer_state\<close>.\<close>

fun newest :: "state_row list \<Rightarrow> state_row option" where
  "newest [] = None"
| "newest (r # rs) =
     (case newest rs of
        None \<Rightarrow> Some r
      | Some m \<Rightarrow> if s_id r < s_id m then Some m else Some r)"

text \<open>The row object that the driver returns: its keys are the column names of the query.\<close>

definition state_object :: "state_row \<Rightarrow> jsobject" where
  "state_object r =
     [(''last_indexed_ledger'', JNumber (last_indexed_ledger r)),
      (''last_indexed_cursor'', case last_indexed_cursor r of None \<Rightarrow> JNull | Some c \<Rightarrow> JString c)]"

definition update_state :: "int \<Rightarrow> string \<Rightarrow> state_row list \<Rightarrow> state_row list" where
  "update_state l c rows =
     (case newest rows of
        None \<Rightarrow> rows
      | Some m \<Rightarrow>
          map (\<lambda>r. if s_id r = s_id m
                   then r \<lparr> last_indexed_ledger := l, last_indexed_cursor := Some c \<rparr>
                   else r) rows)"

fun apply_write :: "db_write \<Rightarrow> tables \<Rightarrow> tables" where
  "apply_write (InsertRow r) t = t \<lparr> loan_events := loan_events t @ [r] \<rparr>"
| "apply_write (SetState l c) t = t \<lparr> indexer_state := update_state l c (indexer_state t) \<rparr>"

definition apply_writes :: "db_write list \<Rightarrow> tables \<Rightarrow> tables" where
  "apply_writes ws t = foldl (\<lambda>t w. apply_write w t) t ws"

text \<open>The writes that a client's transaction holds.\<close>

fun open_writes :: "txn option \<Rightarrow> db_write list" where
  "open_writes (Some (Open ws)) = ws"
| "open_writes (Some Aborted) = []"
| "open_writes None = []"

text \<open>
  What a statement on client \<open>c\<close> sees: the committed tables and the writes of the
  client's own open transaction.
\<close>

definition view :: "db \<Rightarrow> nat \<Rightarrow> tables" where
  "view d c = apply_writes (open_writes (pending d c)) (committed d)"

text \<open>A write on client \<open>c\<close>: into its open transaction, else committed at once.\<close>

definition write_stmt :: "db_write \<Rightarrow> nat \<Rightarrow> db \<Rightarrow> db" where
  "write_stmt w c d =
     (case pending d c of
        Some (Open ws) \<Rightarrow> d \<lparr> pending := (pending d)(c := Some (Open (ws @ [w]))) \<rparr>
      | Some Aborted \<Rightarrow> d
      | None \<Rightarrow> d \<lparr> committed := apply_write w (committed d) \<rparr>)"

text \<open>An error raised by the database on client \<open>c\<close> aborts the client's transaction.\<close>

definition fail_stmt :: "nat \<Rightarrow> db \<Rightarrow> db" where
  "fail_stmt c d =
     (case pending d c of
        None \<Rightarrow> d
      | Some t \<Rightarrow> d \<lparr> pending := (pending d)(c := Some Aborted) \<rparr>)"

text \<open>
  The effect of a statement that reaches the database on client \<open>c\<close>. In an aborted
  transaction every statement but \<open>COMMIT\<close> and \<open>ROLLBACK\<close> is refused, and both
  end it without committing. \<open>INSERT\<close> and \<open>UPDATE\<close> check the column types, and
  \<open>INSERT\<close> enforces the constraint \<open>unique: true\<close> of the column \<open>event_id\<close>
  against what the client sees. (Two transactions open at once on two clients are not
  kept from inserting the same identifier, where the database would make the second
  wait; the properties below are about one client.)
\<close>

fun exec :: "statement \<Rightarrow> nat \<Rightarrow> db \<Rightarrow> (error + jsobject list) \<times> db" where
  "exec Begin c d =
     (case pending d c of
        None \<Rightarrow> (Inr [], d \<lparr> pending := (pending d)(c := Some (Open [])) \<rparr>)
      | Some (Open ws) \<Rightarrow> (Inr [], d)
      | Some Aborted \<Rightarrow> (Inl InFailedTransaction, d))"
| "exec Commit c d =
     (case pending d c of
        None \<Rightarrow> (Inr [], d)
      | Some (Open ws) \<Rightarrow>
          (Inr [], d \<lparr> committed := apply_writes ws (committed d),
                       pending := (pending d)(c := None) \<rparr>)
      | Some Aborted \<Rightarrow> (Inr [], d \<lparr> pending := (pending d)(c := None) \<rparr>))"
| "exec Rollback c d = (Inr [], d \<lparr> pending := (pending d)(c := None) \<rparr>)"
| "exec (SelectEventId k) c d =
     (if pending d c = Some Aborted then (Inl InFailedTransaction, d)
      else (Inr (map (\<lambda>r. [(''id'', JNumber (int (r_id r)))])
                  (filter (\<lambda>r. r_event_id r = k) (loan_events (view d c)))), d))"
| "exec (InsertEvent row) c d =
     (if pending d c = Some Aborted then (Inl InFailedTransaction, d)
      else if \<not> row_accepted row then (Inl DataError, fail_stmt c d)
      else if r_event_id row \<in> set (map r_event_id (loan_events (view d c)))
      then (Inl UniqueViolation, fail_stmt c (d \<lparr> event_seq := Suc (event_seq d) \<rparr>))
      else (Inr [], write_stmt (InsertRow (row \<lparr> r_id := event_seq d \<rparr>)) c
                      (d \<lparr> event_seq := Suc (event_seq d) \<rparr>)))"
| "exec SelectState c d =
     (if pending d c = Some Aborted then (Inl InFailedTransaction, d)
      else (Inr (case newest (indexer_state (view d c)) of
                   None \<Rightarrow> [] | Some r \<Rightarrow> [state_object r]), d))"
| "exec (UpdateState l cu) c d =
     (if pending d c = Some Aborted then (Inl InFailedTransaction, d)
      else if \<not> int4 l \<or> \<not> varchar255 cu then (Inl DataError, fail_stmt c d)
      else (Inr [], write_stmt (SetState l cu) c d))"

text \<open>The client and the fault of the next statement.\<close>

definition next_client :: "db \<Rightarrow> nat" where
  "next_client d = (case pool d of [] \<Rightarrow> 0 | c # cs \<Rightarrow> c)"

definition next_fault :: "db \<Rightarrow> bool" where
  "next_fault d = (case faults d of [] \<Rightarrow> False | f # fs \<Rightarrow> f)"

text \<open>
  \<open>query(text, params)\<close> of \<open>db/connection\<close>: one statement on the client the
  pool hands out, or the error it throws.
\<close>

definition query :: "statement \<Rightarrow> db \<Rightarrow> (error + jsobject list) \<times> db" where
  "query s d =
     (let d1 = d \<lparr> pool := tl (pool d), faults := tl (faults d) \<rparr>
      in if next_fault d then (Inl QueryFailed, d1) else exec s (next_client d) d1)"

subsection \<open>Persistence\<close>

text \<open>The parameters of the \<open>INSERT\<close>; \<open>x || null\<close> turns \<open>undefined\<close>, \<open>0\<close> and \<open>""\<close> into \<open>null\<close>.\<close>

definition row_of :: "loan_event \<Rightarrow> event_row" where
  "row_of e =
     \<lparr> r_id = 0, r_event_id = eventId e, r_event_type = eventType e,
       r_loan_id = (case loanId e of None \<Rightarrow> None | Some n \<Rightarrow> if n = 0 then None else Some n),
       r_borrower = borrower e,
       r_amount = (case amount e of None \<Rightarrow> None | Some a \<Rightarrow> if a = [] then None else Some a),
       r_ledger = le_ledger e, r_ledger_closed_at = le_ledgerClosedAt e,
       r_tx_hash = le_txHash e, r_contract_id = le_contractId e,
       r_topics = topics e, r_value = le_value e \<rparr>"

text \<open>The \<open>for\<close> loop of \<open>storeEvents\<close>, between \<open>BEGIN\<close> and \<open>COMMIT\<close>.\<close>

fun store_loop :: "loan_event list \<Rightarrow> db \<Rightarrow> (error + unit) \<times> db" where
  "store_loop [] d = (Inr (), d)"
| "store_loop (e # es) d =
     (case query (SelectEventId (eventId e)) d of
        (Inl err, d1) \<Rightarrow> (Inl err, d1)
      | (Inr rows, d1) \<Rightarrow>
          if rows \<noteq> [] then store_loop es d1
          else (case query (InsertEvent (row_of e)) d1 of
                  (Inl err, d2) \<Rightarrow> (Inl err, d2)
                | (Inr res, d2) \<Rightarrow> store_loop es d2))"

text \<open>The \<open>try\<close> block of \<open>storeEvents\<close>.\<close>

definition store_try :: "loan_event list \<Rightarrow> db \<Rightarrow> (error + unit) \<times> db" where
  "store_try evs d =
     (case query Begin d of
        (Inl err, d1) \<Rightarrow> (Inl err, d1)
      | (Inr res, d1) \<Rightarrow>
          (case store_loop evs d1 of
             (Inl err, d2) \<Rightarrow> (Inl err, d2)
           | (Inr u, d2) \<Rightarrow>
               (case query Commit d2 of
                  (Inl err, d3) \<Rightarrow> (Inl err, d3)
                | (Inr res, d3) \<Rightarrow> (Inr (), d3))))"

definition storeEvents :: "loan_event list \<Rightarrow> db \<Rightarrow> (error + unit) \<times> db" where
  "storeEvents evs d =
     (if evs = [] then (Inr (), d)
      else (case store_try evs d of
              (Inr u, d1) \<Rightarrow> (Inr (), d1)
            | (Inl err, d1) \<Rightarrow>
                (case query Rollback d1 of
                   (Inl err2, d2) \<Rightarrow> (Inl err2, d2)
                 | (Inr res, d2) \<Rightarrow> (Inl err, d2))))"

definition default_state :: jsobject where
  "default_state = [(''lastIndexedLedger'', JNumber 0), (''lastIndexedCursor'', JNull)]"

definition getIndexerState :: "db \<Rightarrow> (error + jsobject) \<times> db" where
  "getIndexerState d =
     (case query SelectState d of
        (Inl err, d1) \<Rightarrow> (Inl err, d1)
      | (Inr rows, d1) \<Rightarrow> (Inr (case js_index rows 0 of None \<Rightarrow> default_state | Some r \<Rightarrow> r), d1))"

definition updateIndexerState :: "int \<Rightarrow> string \<Rightarrow> db \<Rightarrow> (error + unit) \<times> db" where
  "updateIndexerState l c d =
     (case query (UpdateState l c) d of
        (Inl err, d1) \<Rightarrow> (Inl err, d1)
      | (Inr res, d1) \<Rightarrow> (Inr (), d1))"

subsection \<open>One cycle\<close>

record indexer_config =
  rpcUrl :: string
  cfg_contractId :: string
  pollIntervalMs :: int
  batchSize :: int

record event_filter =
  ftype :: string
  contractIds :: "string list"

record request =
  startLedger :: jsval
  filters :: "event_filter list"
  limit :: int

record response =
  events :: "raw_event list"
  cursor :: "string option"

text \<open>
  What the indexer is given from outside the repository: \<open>server.getEvents\<close> of the
  RPC client (an answer or a thrown error for each request) and the XDR encoder.
\<close>

record sdk =
  getEvents :: "request \<Rightarrow> error + response"
  toXDR :: "scval \<Rightarrow> string"

text \<open>The argument of \<open>server.getEvents\<close> in \<open>indexEvents\<close>.\<close>

definition events_request :: "indexer_config \<Rightarrow> jsobject \<Rightarrow> request" where
  "events_request cfg state =
     \<lparr> startLedger = js_plus (js_get state ''lastIndexedLedger'') (JNumber 1),
       filters = [\<lparr> ftype = ''contract'', contractIds = [cfg_contractId cfg] \<rparr>],
       limit = batchSize cfg \<rparr>"

text \<open>\<open>response.cursor || ""\<close>.\<close>

definition cursor_or_empty :: "string option \<Rightarrow> string" where
  "cursor_or_empty c = (case c of None \<Rightarrow> [] | Some s \<Rightarrow> s)"

text \<open>Lines 56 to 61 of \<open>indexEvents\<close>: read the state, then ask the source.\<close>

definition fetch_batch :: "sdk \<Rightarrow> indexer_config \<Rightarrow> db \<Rightarrow> (error + response) \<times> db" where
  "fetch_batch k cfg d =
     (case getIndexerState d of
        (Inl err, d1) \<Rightarrow> (Inl err, d1)
      | (Inr state, d1) \<Rightarrow>
          (case getEvents k (events_request cfg state) of
             Inl err \<Rightarrow> (Inl err, d1)
           | Inr resp \<Rightarrow> (Inr resp, d1)))"

definition indexEvents :: "sdk \<Rightarrow> indexer_config \<Rightarrow> db \<Rightarrow> (error + unit) \<times> db" where
  "indexEvents k cfg d =
     (case fetch_batch k cfg d of
        (Inl err, d1) \<Rightarrow> (Inl err, d1)
      | (Inr resp, d1) \<Rightarrow>
          if events resp = [] then (Inr (), d1)
          else
            (case storeEvents (processEvents (toXDR k) (events resp)) d1 of
               (Inl err, d2) \<Rightarrow> (Inl err, d2)
             | (Inr u, d2) \<Rightarrow>
                 updateIndexerState (ledger (last (events resp)))
                   (cursor_or_empty (cursor resp)) d2))"

subsection \<open>The controller\<close>

record indexer =
  config :: indexer_config
  isRunning :: bool
  pollTimeout :: "nat option"

text \<open>
  What lies outside the object: the database, the timers that are armed (handle and
  delay) with the next free handle, and the errors written to the log.
\<close>

record runtime =
  database :: db
  timers :: "(nat \<times> int) list"
  next_timer :: nat
  logged :: "error list"

definition setTimeout :: "int \<Rightarrow> runtime \<Rightarrow> nat \<times> runtime" where
  "setTimeout delay w =
     (next_timer w, w \<lparr> timers := timers w @ [(next_timer w, delay)], next_timer := Suc (next_timer w) \<rparr>)"

definition clearTimeout :: "nat \<Rightarrow> runtime \<Rightarrow> runtime" where
  "clearTimeout h w = w \<lparr> timers := filter (\<lambda>t. fst t \<noteq> h) (timers w) \<rparr>"

text \<open>The \<open>try\<close>/\<open>catch\<close> of \<open>poll\<close>: the cycle, its error logged and dropped.\<close>

definition poll_cycle :: "sdk \<Rightarrow> indexer \<Rightarrow> runtime \<Rightarrow> runtime" where
  "poll_cycle k ix w =
     (case indexEvents k (config ix) (database w) of
        (Inl err, d) \<Rightarrow> w \<lparr> database := d, logged := logged w @ [err] \<rparr>
      | (Inr u, d) \<Rightarrow> w \<lparr> database := d \<rparr>)"

text \<open>The last line of \<open>poll\<close>: arm the timer and keep its handle.\<close>

definition poll_rearm :: "indexer \<Rightarrow> runtime \<Rightarrow> indexer \<times> runtime" where
  "poll_rearm ix w =
     (case setTimeout (pollIntervalMs (config ix)) w of
        (h, w1) \<Rightarrow> (ix \<lparr> pollTimeout := Some h \<rparr>, w1))"

definition poll :: "sdk \<Rightarrow> indexer \<Rightarrow> runtime \<Rightarrow> indexer \<times> runtime" where
  "poll k ix w = (if \<not> isRunning ix then (ix, w) else poll_rearm ix (poll_cycle k ix w))"

definition start :: "sdk \<Rightarrow> indexer \<Rightarrow> runtime \<Rightarrow> indexer \<times> runtime" where
  "start k ix w = (if isRunning ix then (ix, w) else poll k (ix \<lparr> isRunning := True \<rparr>) w)"

definition stop :: "indexer \<Rightarrow> runtime \<Rightarrow> indexer \<times> runtime" where
  "stop ix w =
     (ix \<lparr> isRunning := False \<rparr>,
      case pollTimeout ix of None \<Rightarrow> w | Some h \<Rightarrow> clearTimeout h w)"

text \<open>
  \<open>poll\<close> with a call of \<open>stop\<close> arriving while the cycle is awaited. The cycle
  reads neither \<open>isRunning\<close> nor the timers, so the point of the cycle at which
  \<open>stop\<close> runs makes no difference; what follows the \<open>await\<close> runs on the object
  as \<open>stop\<close> left it.
\<close>

definition poll_stop_in_flight :: "sdk \<Rightarrow> indexer \<Rightarrow> runtime \<Rightarrow> indexer \<times> runtime" where
  "poll_stop_in_flight k ix w =
     (if \<not> isRunning ix then (ix, w)
      else (case stop ix (poll_cycle k ix w) of (ix1, w1) \<Rightarrow> poll_rearm ix1 w1))"

text \<open>An armed timer's callback \<open>() => this.poll()\<close> runs; a disarmed handle never fires.\<close>

definition timer_fires :: "sdk \<Rightarrow> nat \<Rightarrow> indexer \<Rightarrow> runtime \<Rightarrow> indexer \<times> runtime" where
  "timer_fires k h ix w =
     (if h \<in> set (map fst (timers w)) then poll k ix (clearTimeout h w) else (ix, w))"

subsection \<open>Sample data\<close>

text \<open>A raw contract event of the contract \<open>CTEST\<close>, for the worked instances below.\<close>

definition contract_event :: "string \<Rightarrow> int \<Rightarrow> scval list \<Rightarrow> scval \<Rightarrow> raw_event" where
  "contract_event i l ts v =
     \<lparr> etype = ''contract'', eid = i, ledger = l, ledgerClosedAt = ''2024-01-15T10:30:00Z'',
       txHash = ''tx'', contractId = Some ''CTEST'', topic = ts, evalue = v \<rparr>"

text \<open>The configuration that \<open>indexerManager\<close> builds from its defaults.\<close>

definition sample_config :: indexer_config where
  "sample_config =
     \<lparr> rpcUrl = ''https://soroban-testnet.stellar.org'', cfg_contractId = ''CTEST'',
       pollIntervalMs = 30000, batchSize = 100 \<rparr>"

text \<open>
  The database as the migration leaves it, one state row and no event, with the state
  row at ledger \<open>l\<close>, no transaction open, the clients \<open>cs\<close> handed out by the pool
  and the fault schedule \<open>fs\<close>; \<open>sample_db\<close> has every statement on client 0.
\<close>

definition sample_db_pool :: "int \<Rightarrow> nat list \<Rightarrow> bool list \<Rightarrow> db" where
  "sample_db_pool l cs fs =
     \<lparr> committed = \<lparr> loan_events = [],
                     indexer_state = [\<lparr> s_id = 1, last_indexed_ledger = l,
                                       last_indexed_cursor = None \<rparr>] \<rparr>,
       pending = (\<lambda>c. None), event_seq = 1, pool = cs, faults = fs \<rparr>"

definition sample_db :: "int \<Rightarrow> bool list \<Rightarrow> db" where
  "sample_db l fs = sample_db_pool l [] fs"

text \<open>A source that gives the same answer to every request.\<close>

definition sample_sdk :: "error + response \<Rightarrow> sdk" where
  "sample_sdk answer = \<lparr> getEvents = (\<lambda>rq. answer), toXDR = (\<lambda>x. []) \<rparr>"

definition sample_response :: "raw_event list \<Rightarrow> error + response" where
  "sample_response evs = Inr \<lparr> events = evs, cursor = Some ''c1'' \<rparr>"

text \<open>
  An approval, as the README has it: the second topic is the loan identifier, there is
  no third topic, and the value is not an amount.
\<close>

definition approval :: "string \<Rightarrow> int \<Rightarrow> raw_event" where
  "approval i l = contract_event i l [ScvSymbol ''LoanApproved'', ScvU32 7] (ScvBool True)"

text \<open>A batch of three approvals, at the ledgers 100, 101 and 102.\<close>

definition sample_batch :: "raw_event list" where
  "sample_batch = [approval ''e1'' 100, approval ''e2'' 101, approval ''e3'' 102]"

text \<open>A loan request with an amount, as the README has it.\<close>

definition loan_request :: raw_event where
  "loan_request =
     contract_event ''e1'' 100 [ScvSymbol ''LoanRequested'', ScvAddress ''GA'', ScvU32 7]
       (ScvI128 500)"

text \<open>The decoded event of \<open>loan_request\<close>, with the encoder of \<open>sample_sdk\<close>.\<close>

definition refused_event :: loan_event where
  "refused_event =
     \<lparr> eventId = ''e1'', eventType = LoanRequested, loanId = Some 7,
       borrower = ''[object Object]'', amount = Some ''[object Object]'', le_ledger = 100,
       le_ledgerClosedAt = ''2024-01-15T10:30:00Z'', le_txHash = ''tx'',
       le_contractId = ''CTEST'', topics = [[], [], []], le_value = [] \<rparr>"

text \<open>The decoded event of \<open>approval ''e1'' 100\<close>.\<close>

definition sample_event :: loan_event where
  "sample_event =
     \<lparr> eventId = ''e1'', eventType = LoanApproved, loanId = None, borrower = [],
       amount = Some ''0'', le_ledger = 100, le_ledgerClosedAt = ''2024-01-15T10:30:00Z'',
       le_txHash = ''tx'', le_contractId = ''CTEST'', topics = [[], []], le_value = [] \<rparr>"

definition sample_indexer :: "bool \<Rightarrow> nat option \<Rightarrow> indexer" where
  "sample_indexer running h = \<lparr> config = sample_config, isRunning = running, pollTimeout = h \<rparr>"

definition sample_runtime :: "db \<Rightarrow> (nat \<times> int) list \<Rightarrow> nat \<Rightarrow> runtime" where
  "sample_runtime d ts n = \<lparr> database = d, timers = ts, next_timer = n, logged = [] \<rparr>"

subsection \<open>Observations\<close>

text \<open>The event identifiers held by the table \<open>loan_events\<close>, in row order.\<close>

definition event_ids :: "tables \<Rightarrow> string list" where
  "event_ids t = map r_event_id (loan_events t)"

text \<open>The rows of \<open>loan_events\<close> that carry a given event identifier.\<close>

definition rows_with_id :: "tables \<Rightarrow> string \<Rightarrow> event_row list" where
  "rows_with_id t i = filter (\<lambda>r. r_event_id r = i) (loan_events t)"

text \<open>The pool hands client 0 to every statement still to come.\<close>

definition only_client0 :: "db \<Rightarrow> bool" where
  "only_client0 d \<longleftrightarrow> list_all (\<lambda>c. c = 0) (pool d)"

text \<open>
  The indexer has one connection to itself: every statement still to come runs on
  client 0, and client 0 has no transaction open.
\<close>

definition one_client :: "db \<Rightarrow> bool" where
  "one_client d \<longleftrightarrow> only_client0 d \<and> pending d 0 = None"

text \<open>
  The argument that a cycle starting in \<open>d\<close> passes to \<open>server.getEvents\<close>;
  \<open>None\<close> when reading the state throws before the source is asked.
\<close>

definition cycle_request :: "indexer_config \<Rightarrow> db \<Rightarrow> request option" where
  "cycle_request cfg d =
     (case getIndexerState d of
        (Inl err, d1) \<Rightarrow> None
      | (Inr state, d1) \<Rightarrow> Some (events_request cfg state))"


section \<open>Properties\<close>

subsection \<open>Statements on the client of the pool\<close>

lemma view_schedule [simp]:
  "view (d \<lparr> pool := p, faults := f \<rparr>) c = view d c"
  by (simp add: view_def)

lemma exec_schedule:
  "exec s c d = (r, d') \<Longrightarrow> pool d' = pool d \<and> faults d' = faults d"
  by (cases s)
     (auto simp: write_stmt_def fail_stmt_def split: option.splits txn.splits if_splits)

lemma query_schedule:
  "query s d = (r, d') \<Longrightarrow> pool d' = tl (pool d) \<and> faults d' = tl (faults d)"
  by (auto simp: query_def Let_def dest: exec_schedule split: if_splits)

lemma only_client0_next: "only_client0 d \<Longrightarrow> next_client d = 0"
  by (cases "pool d") (auto simp: only_client0_def next_client_def)

lemma only_client0_query:
  "only_client0 d \<Longrightarrow> query s d = (r, d') \<Longrightarrow> only_client0 d'"
  using query_schedule [of s d r d']
  by (cases "pool d") (auto simp: only_client0_def)

lemma exec_error:
  "exec s c d = (Inl err, d') \<Longrightarrow> committed d' = committed d"
  by (cases s)
     (auto simp: write_stmt_def fail_stmt_def split: option.splits txn.splits if_splits)

lemma query_error:
  "query s d = (Inl err, d') \<Longrightarrow> committed d' = committed d"
  by (auto simp: query_def Let_def dest: exec_error split: if_splits)

lemma view_insert:
  "pending d c = Some (Open (ws @ [InsertRow r]))
     \<Longrightarrow> pending d0 c = Some (Open ws) \<Longrightarrow> committed d = committed d0
     \<Longrightarrow> view d c = (view d0 c) \<lparr> loan_events := loan_events (view d0 c) @ [r] \<rparr>"
  by (simp add: view_def apply_writes_def)

lemma query_select_ok:
  assumes "only_client0 d" and "query (SelectEventId k) d = (Inr rows, d')"
  shows "pending d' = pending d \<and> committed d' = committed d
         \<and> (rows \<noteq> [] \<longleftrightarrow> k \<in> set (event_ids (view d 0)))"
  using assms only_client0_next [OF assms(1)]
  by (auto simp: query_def Let_def event_ids_def filter_empty_conv view_def split: if_splits)

lemma query_insert_ok:
  assumes "only_client0 d" and "pending d 0 = Some (Open ws)"
    and "query (InsertEvent row) d = (Inr rows, d')"
  shows "committed d' = committed d \<and> r_event_id row \<notin> set (event_ids (view d 0))
         \<and> row_accepted row
         \<and> (\<exists>n. pending d' 0 = Some (Open (ws @ [InsertRow (row \<lparr> r_id := n \<rparr>)])))"
  using assms only_client0_next [OF assms(1)]
  by (auto simp: query_def Let_def event_ids_def write_stmt_def view_def split: if_splits)

lemma query_begin_ok:
  assumes "only_client0 d" and "pending d 0 = None" and "query Begin d = (Inr rows, d1)"
  shows "pending d1 0 = Some (Open []) \<and> committed d1 = committed d \<and> view d1 0 = committed d"
  using assms only_client0_next [OF assms(1)]
  by (auto simp: query_def Let_def view_def apply_writes_def split: if_splits)

lemma query_commit_ok:
  assumes "only_client0 d" and "pending d 0 = Some (Open ws)"
    and "query Commit d = (Inr rows, d')"
  shows "pending d' 0 = None \<and> committed d' = view d 0"
  using assms only_client0_next [OF assms(1)]
  by (auto simp: query_def Let_def view_def split: if_splits)

lemma query_rollback_ok:
  assumes "only_client0 d" and "query Rollback d = (Inr rows, d')"
  shows "pending d' 0 = None \<and> committed d' = committed d"
  using assms only_client0_next [OF assms(1)]
  by (auto simp: query_def Let_def split: if_splits)

lemma query_rollback:
  "query Rollback d = (r, d') \<Longrightarrow> committed d' = committed d"
  by (auto simp: query_def Let_def split: if_splits)

lemma query_update_ok:
  assumes "only_client0 d" and "pending d 0 = None"
    and "query (UpdateState l c) d = (Inr rows, d')"
  shows "pending d' 0 = None
         \<and> committed d' = (committed d) \<lparr> indexer_state := update_state l c (indexer_state (committed d)) \<rparr>"
  using assms only_client0_next [OF assms(1)]
  by (auto simp: query_def Let_def write_stmt_def split: if_splits)

lemma query_select_state:
  "query SelectState d = (r, d')
     \<Longrightarrow> committed d' = committed d \<and> pending d' = pending d
         \<and> (\<forall>rows. r = Inr rows \<longrightarrow>
               rows = (case newest (indexer_state (view d (next_client d))) of
                         None \<Rightarrow> [] | Some x \<Rightarrow> [state_object x]))"
  by (auto simp: query_def Let_def view_def split: if_splits)

subsection \<open>The transaction of \<open>storeEvents\<close> on one client\<close>

lemma query_in_txn:
  assumes "only_client0 d" and "pending d 0 \<noteq> None"
    and "s = SelectEventId k \<or> s = InsertEvent row"
    and "query s d = (r, d')"
  shows "committed d' = committed d \<and> pending d' 0 \<noteq> None"
  using assms only_client0_next [OF assms(1)]
  by (auto simp: query_def Let_def write_stmt_def fail_stmt_def
      split: if_splits option.splits txn.splits)

lemma store_loop_frame:
  "only_client0 d \<Longrightarrow> store_loop evs d = (r, d')
     \<Longrightarrow> only_client0 d' \<and> (pending d 0 \<noteq> None \<longrightarrow> committed d' = committed d)"
proof (induction evs arbitrary: d)
  case Nil
  then show ?case by simp
next
  case (Cons e es)
  obtain r1 d1 where q1: "query (SelectEventId (eventId e)) d = (r1, d1)"
    by (cases "query (SelectEventId (eventId e)) d")
  from only_client0_query [OF Cons.prems(1) q1] have c1: "only_client0 d1" .
  have t1: "pending d 0 \<noteq> None \<longrightarrow> committed d1 = committed d \<and> pending d1 0 \<noteq> None"
    using query_in_txn [OF Cons.prems(1) _ _ q1] by blast
  show ?case
  proof (cases r1)
    case (Inl a)
    with Cons.prems q1 have "d' = d1" by simp
    with c1 t1 show ?thesis by simp
  next
    case (Inr rows)
    show ?thesis
    proof (cases "rows \<noteq> []")
      case True
      with Cons.prems q1 Inr have "store_loop es d1 = (r, d')" by simp
      from Cons.IH [OF c1 this] t1 show ?thesis by auto
    next
      case False
      obtain r2 d2 where q2: "query (InsertEvent (row_of e)) d1 = (r2, d2)"
        by (cases "query (InsertEvent (row_of e)) d1")
      from only_client0_query [OF c1 q2] have c2: "only_client0 d2" .
      have t2: "pending d1 0 \<noteq> None \<longrightarrow> committed d2 = committed d1 \<and> pending d2 0 \<noteq> None"
        using query_in_txn [OF c1 _ _ q2] by blast
      show ?thesis
      proof (cases r2)
        case (Inl a)
        with Cons.prems q1 q2 Inr False have "d' = d2" by simp
        with c2 t1 t2 show ?thesis by auto
      next
        case Inr2: (Inr rows2)
        with Cons.prems q1 q2 Inr False have "store_loop es d2 = (r, d')" by simp
        from Cons.IH [OF c2 this] t1 t2 show ?thesis by auto
      qed
    qed
  qed
qed

lemma store_loop_ok:
  "only_client0 d \<Longrightarrow> pending d 0 = Some (Open ws) \<Longrightarrow> store_loop evs d = (Inr u, d')
     \<Longrightarrow> \<exists>ws'. pending d' 0 = Some (Open ws') \<and> committed d' = committed d
           \<and> indexer_state (view d' 0) = indexer_state (view d 0)
           \<and> (\<exists>new. loan_events (view d' 0) = loan_events (view d 0) @ new)
           \<and> set (map eventId evs) \<subseteq> set (event_ids (view d' 0))
           \<and> (distinct (event_ids (view d 0)) \<longrightarrow> distinct (event_ids (view d' 0)))"
proof (induction evs arbitrary: d ws)
  case Nil
  then show ?case by simp
next
  case (Cons e es)
  obtain r1 d1 where q1: "query (SelectEventId (eventId e)) d = (r1, d1)"
    by (cases "query (SelectEventId (eventId e)) d")
  from only_client0_query [OF Cons.prems(1) q1] have c1: "only_client0 d1" .
  show ?case
  proof (cases r1)
    case (Inl a)
    with Cons.prems q1 show ?thesis by simp
  next
    case (Inr rows)
    from query_select_ok [OF Cons.prems(1) q1 [unfolded Inr]] Cons.prems(2)
    have p1: "pending d1 0 = Some (Open ws)" "committed d1 = committed d"
      "rows \<noteq> [] \<longleftrightarrow> eventId e \<in> set (event_ids (view d 0))"
      by simp_all
    from p1(1,2) Cons.prems(2) have v1: "view d1 0 = view d 0" by (simp add: view_def)
    show ?thesis
    proof (cases "rows \<noteq> []")
      case True
      with Cons.prems q1 Inr have "store_loop es d1 = (Inr u, d')" by simp
      from Cons.IH [OF c1 p1(1) this] obtain ws' where t': "pending d' 0 = Some (Open ws')"
        "committed d' = committed d1"
        "indexer_state (view d' 0) = indexer_state (view d1 0)"
        "\<exists>new. loan_events (view d' 0) = loan_events (view d1 0) @ new"
        "set (map eventId es) \<subseteq> set (event_ids (view d' 0))"
        "distinct (event_ids (view d1 0)) \<longrightarrow> distinct (event_ids (view d' 0))"
        by blast
      from t'(4) have "set (event_ids (view d1 0)) \<subseteq> set (event_ids (view d' 0))"
        by (auto simp: event_ids_def)
      with True p1 v1 t' show ?thesis by auto
    next
      case False
      obtain r2 d2 where q2: "query (InsertEvent (row_of e)) d1 = (r2, d2)"
        by (cases "query (InsertEvent (row_of e)) d1")
      from only_client0_query [OF c1 q2] have c2: "only_client0 d2" .
      show ?thesis
      proof (cases r2)
        case (Inl a)
        with Cons.prems q1 q2 Inr False show ?thesis by simp
      next
        case Inr2: (Inr rows2)
        from query_insert_ok [OF c1 p1(1) q2 [unfolded Inr2]] obtain n where
          p2: "committed d2 = committed d1"
          "r_event_id (row_of e) \<notin> set (event_ids (view d1 0))"
          "pending d2 0 = Some (Open (ws @ [InsertRow ((row_of e) \<lparr> r_id := n \<rparr>)]))"
          by blast
        from view_insert [OF p2(3) p1(1) p2(1)]
        have v2: "view d2 0 = (view d1 0) \<lparr> loan_events :=
            loan_events (view d1 0) @ [(row_of e) \<lparr> r_id := n \<rparr>] \<rparr>" .
        from Cons.prems q1 q2 Inr Inr2 False have "store_loop es d2 = (Inr u, d')" by simp
        from Cons.IH [OF c2 p2(3) this] obtain ws' where t': "pending d' 0 = Some (Open ws')"
          "committed d' = committed d2"
          "indexer_state (view d' 0) = indexer_state (view d2 0)"
          "\<exists>new. loan_events (view d' 0) = loan_events (view d2 0) @ new"
          "set (map eventId es) \<subseteq> set (event_ids (view d' 0))"
          "distinct (event_ids (view d2 0)) \<longrightarrow> distinct (event_ids (view d' 0))"
          by blast
        from t'(4) have sub: "set (event_ids (view d2 0)) \<subseteq> set (event_ids (view d' 0))"
          by (auto simp: event_ids_def)
        have e_in: "eventId e \<in> set (event_ids (view d2 0))"
          by (simp add: v2 event_ids_def row_of_def)
        have di: "distinct (event_ids (view d 0)) \<longrightarrow> distinct (event_ids (view d2 0))"
          using p2(2) by (simp add: v1 v2 event_ids_def)
        from t'(4) have pre: "\<exists>new. loan_events (view d' 0) = loan_events (view d 0) @ new"
          by (auto simp: v1 v2)
        from t'(3) have ist: "indexer_state (view d' 0) = indexer_state (view d 0)"
          by (simp add: v1 v2)
        from t'(1,2,5,6) p2(1) p1(2) sub e_in di pre ist show ?thesis by auto
      qed
    qed
  qed
qed

lemma store_try_fail:
  assumes "one_client d" and "store_try evs d = (Inl err, d')"
  shows "committed d' = committed d \<and> only_client0 d'"
proof -
  from assms(1) have c0: "only_client0 d" and p0: "pending d 0 = None"
    by (simp_all add: one_client_def)
  obtain r1 d1 where q1: "query Begin d = (r1, d1)" by (cases "query Begin d")
  from only_client0_query [OF c0 q1] have c1: "only_client0 d1" .
  show ?thesis
  proof (cases r1)
    case (Inl a)
    with assms q1 c1 show ?thesis using query_error [of Begin d a d1] by (simp add: store_try_def)
  next
    case (Inr rows)
    from query_begin_ok [OF c0 p0 q1 [unfolded Inr]]
    have p1: "pending d1 0 = Some (Open [])" "committed d1 = committed d" by simp_all
    obtain r2 d2 where q2: "store_loop evs d1 = (r2, d2)" by (cases "store_loop evs d1")
    from store_loop_frame [OF c1 q2] p1
    have f2: "only_client0 d2" "committed d2 = committed d" by simp_all
    show ?thesis
    proof (cases r2)
      case (Inl a)
      with assms q1 q2 Inr f2 show ?thesis by (simp add: store_try_def)
    next
      case Inr2: (Inr u)
      obtain r3 d3 where q3: "query Commit d2 = (r3, d3)" by (cases "query Commit d2")
      from only_client0_query [OF f2(1) q3] have c3: "only_client0 d3" .
      show ?thesis
      proof (cases r3)
        case (Inl a)
        with q3 have "committed d3 = committed d2" using query_error by blast
        with assms q1 q2 q3 Inr Inr2 Inl f2 c3 show ?thesis by (simp add: store_try_def)
      next
        case (Inr x)
        with assms q1 q2 q3 \<open>r1 = Inr rows\<close> Inr2 show ?thesis by (simp add: store_try_def)
      qed
    qed
  qed
qed

lemma store_try_ok:
  assumes "one_client d" and "store_try evs d = (Inr u, d')"
  shows "one_client d'
         \<and> indexer_state (committed d') = indexer_state (committed d)
         \<and> (\<exists>new. loan_events (committed d') = loan_events (committed d) @ new)
         \<and> set (map eventId evs) \<subseteq> set (event_ids (committed d'))
         \<and> (distinct (event_ids (committed d)) \<longrightarrow> distinct (event_ids (committed d')))"
proof -
  from assms(1) have c0: "only_client0 d" and p0: "pending d 0 = None"
    by (simp_all add: one_client_def)
  obtain r1 d1 where q1: "query Begin d = (r1, d1)" by (cases "query Begin d")
  from only_client0_query [OF c0 q1] have c1: "only_client0 d1" .
  show ?thesis
  proof (cases r1)
    case (Inl a)
    with assms q1 show ?thesis by (simp add: store_try_def)
  next
    case (Inr rows)
    from query_begin_ok [OF c0 p0 q1 [unfolded Inr]]
    have p1: "pending d1 0 = Some (Open [])" "view d1 0 = committed d" by simp_all
    obtain r2 d2 where q2: "store_loop evs d1 = (r2, d2)" by (cases "store_loop evs d1")
    from store_loop_frame [OF c1 q2] have c2: "only_client0 d2" by simp
    show ?thesis
    proof (cases r2)
      case (Inl a)
      with assms q1 q2 Inr show ?thesis by (simp add: store_try_def)
    next
      case Inr2: (Inr u2)
      from store_loop_ok [OF c1 p1(1) q2 [unfolded Inr2]] p1(2)
      obtain ws' where t': "pending d2 0 = Some (Open ws')"
        "indexer_state (view d2 0) = indexer_state (committed d)"
        "\<exists>new. loan_events (view d2 0) = loan_events (committed d) @ new"
        "set (map eventId evs) \<subseteq> set (event_ids (view d2 0))"
        "distinct (event_ids (committed d)) \<longrightarrow> distinct (event_ids (view d2 0))"
        by auto
      obtain r3 d3 where q3: "query Commit d2 = (r3, d3)" by (cases "query Commit d2")
      from only_client0_query [OF c2 q3] have c3: "only_client0 d3" .
      show ?thesis
      proof (cases r3)
        case (Inl a)
        with assms q1 q2 q3 Inr Inr2 show ?thesis by (simp add: store_try_def)
      next
        case Inr3: (Inr x)
        from query_commit_ok [OF c2 t'(1) q3 [unfolded Inr3]]
        have "pending d3 0 = None" "committed d3 = view d2 0" by simp_all
        moreover from assms q1 q2 q3 Inr Inr2 Inr3 have "d' = d3" by (simp add: store_try_def)
        ultimately show ?thesis using t' c3 by (simp add: one_client_def)
      qed
    qed
  qed
qed

lemma storeEvents_fail:
  assumes "one_client d" and "storeEvents evs d = (Inl err, d')"
  shows "committed d' = committed d \<and> only_client0 d'"
proof -
  from assms(2) have ne: "evs \<noteq> []" by (auto simp: storeEvents_def)
  obtain r1 d1 where q1: "store_try evs d = (r1, d1)" by (cases "store_try evs d")
  show ?thesis
  proof (cases r1)
    case (Inl a)
    from store_try_fail [OF assms(1) q1 [unfolded Inl]]
    have p1: "committed d1 = committed d" "only_client0 d1" by simp_all
    obtain r2 d2 where q2: "query Rollback d1 = (r2, d2)" by (cases "query Rollback d1")
    from query_rollback [OF q2] only_client0_query [OF p1(2) q2]
    have "committed d2 = committed d1" "only_client0 d2" by simp_all
    moreover from assms(2) ne q1 q2 Inl have "d' = d2"
      by (auto simp: storeEvents_def split: sum.splits)
    ultimately show ?thesis using p1 by simp
  next
    case (Inr u)
    with assms(2) ne q1 show ?thesis by (simp add: storeEvents_def)
  qed
qed

text \<open>The \<open>ROLLBACK\<close> of the \<open>catch\<close>, when it is carried out, ends the transaction.\<close>

lemma storeEvents_rollback:
  assumes "one_client d" and "evs \<noteq> []" and "store_try evs d = (Inl err, d1)"
    and "query Rollback d1 = (Inr rows, d2)"
  shows "storeEvents evs d = (Inl err, d2) \<and> one_client d2"
proof -
  from store_try_fail [OF assms(1,3)] have c1: "only_client0 d1" by simp
  from query_rollback_ok [OF c1 assms(4)] only_client0_query [OF c1 assms(4)]
  have "one_client d2" by (simp add: one_client_def)
  with assms(2,3,4) show ?thesis by (simp add: storeEvents_def)
qed

lemma storeEvents_ok:
  assumes "one_client d" and "storeEvents evs d = (Inr u, d')"
  shows "one_client d'
         \<and> indexer_state (committed d') = indexer_state (committed d)
         \<and> (\<exists>new. loan_events (committed d') = loan_events (committed d) @ new)
         \<and> set (map eventId evs) \<subseteq> set (event_ids (committed d'))
         \<and> (distinct (event_ids (committed d)) \<longrightarrow> distinct (event_ids (committed d')))"
proof (cases "evs = []")
  case True
  with assms show ?thesis by (simp add: storeEvents_def)
next
  case False
  obtain r1 d1 where q1: "store_try evs d = (r1, d1)" by (cases "store_try evs d")
  show ?thesis
  proof (cases r1)
    case (Inl a)
    with assms(2) False q1 show ?thesis
      by (auto simp: storeEvents_def split: sum.splits prod.splits)
  next
    case (Inr u1)
    with assms(2) False q1 have "d' = d1" by (simp add: storeEvents_def)
    with q1 Inr assms(1) show ?thesis using store_try_ok [of d evs u1 d1] by simp
  qed
qed

subsection \<open>Reading and writing the indexer state\<close>

lemma getIndexerState_result:
  "getIndexerState d = (r, d')
     \<Longrightarrow> committed d' = committed d \<and> pending d' = pending d \<and> pool d' = tl (pool d)
         \<and> (\<forall>st. r = Inr st \<longrightarrow>
               st = (case newest (indexer_state (view d (next_client d))) of
                        None \<Rightarrow> default_state | Some x \<Rightarrow> state_object x))"
proof -
  assume a: "getIndexerState d = (r, d')"
  obtain r1 d1 where q: "query SelectState d = (r1, d1)" by (cases "query SelectState d")
  from query_select_state [OF q] query_schedule [OF q] a q show ?thesis
    by (cases r1) (auto simp: getIndexerState_def js_index_def split: option.splits)
qed

lemma fetch_batch_frame:
  "fetch_batch k cfg d = (r, d1)
     \<Longrightarrow> committed d1 = committed d \<and> pending d1 = pending d \<and> pool d1 = tl (pool d)"
proof -
  assume a: "fetch_batch k cfg d = (r, d1)"
  obtain r0 d0 where q: "getIndexerState d = (r0, d0)" by (cases "getIndexerState d")
  from getIndexerState_result [OF q] a q show ?thesis
    by (cases r0) (auto simp: fetch_batch_def split: sum.splits)
qed

lemma fetch_batch_one_client:
  "one_client d \<Longrightarrow> fetch_batch k cfg d = (r, d1) \<Longrightarrow> one_client d1"
  using fetch_batch_frame [of k cfg d r d1]
  by (cases "pool d") (auto simp: one_client_def only_client0_def)

lemma updateIndexerState_fail:
  "updateIndexerState l c d = (Inl err, d') \<Longrightarrow> committed d' = committed d"
  using query_error [of "UpdateState l c" d]
  by (auto simp: updateIndexerState_def split: prod.splits sum.splits)

lemma updateIndexerState_ok:
  "one_client d \<Longrightarrow> updateIndexerState l c d = (Inr u, d')
     \<Longrightarrow> one_client d'
         \<and> committed d' = (committed d) \<lparr> indexer_state := update_state l c (indexer_state (committed d)) \<rparr>"
  using query_update_ok [of d l c] only_client0_query [of d "UpdateState l c"]
  by (auto simp: updateIndexerState_def one_client_def split: prod.splits sum.splits)

lemma newest_map:
  "(\<And>r. s_id (f r) = s_id r) \<Longrightarrow> newest (map f rows) = map_option f (newest rows)"
  by (induction rows) (auto split: option.splits)

lemma newest_update_state:
  "newest rows = Some m
     \<Longrightarrow> newest (update_state l c rows)
           = Some (m \<lparr> last_indexed_ledger := l, last_indexed_cursor := Some c \<rparr>)"
  by (simp add: update_state_def newest_map)

lemma newest_None: "newest rows = None \<longleftrightarrow> rows = []"
  by (cases rows) (auto split: option.splits)

text \<open>The four ways a cycle with a fetched batch ends.\<close>

lemma indexEvents_cases [consumes 3, case_names empty store_failed update_failed advanced]:
  assumes "one_client d" and "indexEvents k cfg d = (r, d')"
    and "fetch_batch k cfg d = (Inr resp, d1)"
  obtains "events resp = []" and "r = Inr ()" and "d' = d1"
  | err where "events resp \<noteq> []" and "r = Inl err"
      and "storeEvents (processEvents (toXDR k) (events resp)) d1 = (Inl err, d')"
      and "committed d' = committed d"
  | err d2 where "events resp \<noteq> []" and "r = Inl err"
      and "storeEvents (processEvents (toXDR k) (events resp)) d1 = (Inr (), d2)"
      and "one_client d2"
      and "updateIndexerState (ledger (last (events resp))) (cursor_or_empty (cursor resp)) d2
             = (Inl err, d')"
      and "committed d' = committed d2"
  | d2 where "events resp \<noteq> []" and "r = Inr ()"
      and "storeEvents (processEvents (toXDR k) (events resp)) d1 = (Inr (), d2)"
      and "one_client d2" and "one_client d'"
      and "committed d' = (committed d2) \<lparr> indexer_state :=
              update_state (ledger (last (events resp))) (cursor_or_empty (cursor resp))
                (indexer_state (committed d2)) \<rparr>"
proof (cases "events resp = []")
  case True
  with assms that(1) show ?thesis by (simp add: indexEvents_def)
next
  case False
  from fetch_batch_frame [OF assms(3)] fetch_batch_one_client [OF assms(1,3)]
  have f: "committed d1 = committed d" "one_client d1" by simp_all
  let ?evs = "processEvents (toXDR k) (events resp)"
  obtain r2 d2 where s: "storeEvents ?evs d1 = (r2, d2)" by (cases "storeEvents ?evs d1")
  show ?thesis
  proof (cases r2)
    case (Inl err)
    from assms False s Inl have e: "r = Inl err" "d' = d2" by (simp_all add: indexEvents_def)
    from s Inl f(2) have "committed d2 = committed d1" using storeEvents_fail by blast
    with f e have "committed d' = committed d" by simp
    with that(2) [of err] False e s Inl show ?thesis by simp
  next
    case (Inr u)
    with s have s': "storeEvents ?evs d1 = (Inr (), d2)" by simp
    with f have p2: "one_client d2" using storeEvents_ok by blast
    from assms False s Inr
    have u: "updateIndexerState (ledger (last (events resp))) (cursor_or_empty (cursor resp)) d2 = (r, d')"
      by (simp add: indexEvents_def)
    show ?thesis
    proof (cases r)
      case (Inl err)
      with u have "committed d' = committed d2"
        using updateIndexerState_fail by blast
      with that(3) [of err d2] False Inl s' p2 u show ?thesis by simp
    next
      case Inr2: (Inr u2)
      with u p2 have "one_client d' \<and> committed d' = (committed d2) \<lparr> indexer_state :=
               update_state (ledger (last (events resp))) (cursor_or_empty (cursor resp))
                 (indexer_state (committed d2)) \<rparr>"
        using updateIndexerState_ok by blast
      with that(4) [of d2] False Inr2 s' p2 show ?thesis by simp
    qed
  qed
qed

lemma cycle_request_fields:
  assumes "cycle_request cfg d = Some rq"
  shows "limit rq = batchSize cfg
       \<and> filters rq = [\<lparr> ftype = ''contract'', contractIds = [cfg_contractId cfg] \<rparr>]
       \<and> (indexer_state (view d (next_client d)) = [] \<longrightarrow> startLedger rq = JNumber 1)
       \<and> (indexer_state (view d (next_client d)) \<noteq> [] \<longrightarrow> startLedger rq = JNaN)"
proof -
  obtain r1 d1 where g: "getIndexerState d = (r1, d1)" by (cases "getIndexerState d")
  with assms obtain st where st: "r1 = Inr st" "rq = events_request cfg st"
    by (cases r1) (auto simp: cycle_request_def)
  from getIndexerState_result [OF g] st(1)
  have "st = (case newest (indexer_state (view d (next_client d))) of
                None \<Rightarrow> default_state | Some x \<Rightarrow> state_object x)" by simp
  with st(2) show ?thesis
    using newest_None [of "indexer_state (view d (next_client d))"]
    by (auto simp: events_request_def default_state_def state_object_def js_get_def js_plus_def
        split: option.splits)
qed

lemma fetch_batch_sends_cycle_request:
  "cycle_request cfg d = Some rq \<Longrightarrow>
     fst (fetch_batch k cfg d) = getEvents k rq"
  by (auto simp: cycle_request_def fetch_batch_def split: prod.splits sum.splits)

lemma last_is_Max:
  "xs \<noteq> [] \<Longrightarrow> sorted xs \<Longrightarrow> last xs = Max (set (xs :: int list))"
proof (induction xs)
  case Nil
  then show ?case by simp
next
  case (Cons x xs)
  show ?case
  proof (cases "xs = []")
    case True
    then show ?thesis by simp
  next
    case False
    with Cons have "last xs = Max (set xs)" by simp
    moreover from Cons.prems have "\<forall>y\<in>set xs. x \<le> y" by simp
    ultimately show ?thesis using False by (simp add: max_def Max_ge_iff)
  qed
qed

subsection \<open>Idempotent insertion\<close>




subsection \<open>The decoder\<close>

lemma processEvents_append:
  "processEvents f (xs @ ys) = processEvents f xs @ processEvents f ys"
  by (induction xs) (auto split: option.splits)

subsection \<open>Unfolding the model on concrete data\<close>

lemmas run_defs =
  indexEvents_def fetch_batch_def getIndexerState_def updateIndexerState_def storeEvents_def
  store_try_def query_def next_client_def next_fault_def view_def apply_writes_def
  write_stmt_def fail_stmt_def row_accepted_def int4_def varchar255_def numeric_syntax_def
  is_digit_def drop_sign_def exponent_syntax_def update_state_def state_object_def
  default_state_def events_request_def js_get_def js_plus_def js_index_def cursor_or_empty_def
  row_of_def processEvent_def decodeEventType_def decodeAddress_def decodeAmount_def
  decodeLoanId_def object_toString_def
  sample_config_def sample_db_def sample_db_pool_def sample_sdk_def sample_response_def
  contract_event_def approval_def sample_batch_def loan_request_def sample_event_def
  refused_event_def sample_indexer_def sample_runtime_def
  event_ids_def rows_with_id_def cycle_request_def one_client_def only_client0_def
  poll_def poll_cycle_def poll_rearm_def setTimeout_def clearTimeout_def start_def stop_def
  poll_stop_in_flight_def timer_fires_def Let_def

text \<open>
  What the decoder makes of a payload that is an amount and of a topic that is an
  address, and what the column \<open>amount numeric\<close> reads.
\<close>

lemma decode_success_paths:
  "decodeAddress (ScvAddress a) = ''[object Object]''
   \<and> decodeAmount (ScvI128 w) = ''[object Object]''
   \<and> \<not> numeric_syntax ''[object Object]'' \<and> numeric_syntax ''0''"
  by (simp add: run_defs)

text \<open>
  With two clients the transaction of \<open>storeEvents\<close> protects nothing: below the
  pool gives \<open>BEGIN\<close> to client 1 and the other statements to client 0, so the
  \<open>INSERT\<close> is committed at once; the \<open>COMMIT\<close> then fails and the
  \<open>ROLLBACK\<close> finds nothing to undo: \<open>storeEvents\<close> has failed and the event
  is stored.
\<close>

lemma pool_breaks_rollback:
  "fst (indexEvents (sample_sdk (sample_response [approval ''e1'' 5])) sample_config
         (sample_db_pool 0 [0, 1, 0, 0, 0, 0] [False, False, False, False, True]))
     = Inl QueryFailed
   \<and> event_ids (committed (snd (indexEvents (sample_sdk (sample_response [approval ''e1'' 5]))
         sample_config (sample_db_pool 0 [0, 1, 0, 0, 0, 0] [False, False, False, False, True]))))
     = [''e1'']"
  by (simp add: run_defs)

section \<open>The claims\<close>

text \<open>
  Claim C1, as stated: the events of a batch and the new progress are written in one
  transaction, so that a failure of any step of persistence leaves no event of the batch
  stored. They are not: \<open>storeEvents\<close> commits its own transaction and
  \<open>updateIndexerState\<close> runs after it, on its own. Below, the batch is one approval
  (its amount is \<open>"0"\<close>, which the table accepts), every statement runs on client 0,
  and the sixth statement of the cycle, the \<open>UPDATE\<close>, fails: the cycle fails, the
  event of the batch is in the committed table, and the progress row is as it was.
\<close>

theorem C1_counterexample:
  "fst (indexEvents (sample_sdk (sample_response [approval ''e1'' 5])) sample_config
         (sample_db 0 [False, False, False, False, False, True])) = Inl QueryFailed
   \<and> event_ids (committed (snd (indexEvents (sample_sdk (sample_response [approval ''e1'' 5]))
         sample_config (sample_db 0 [False, False, False, False, False, True])))) = [''e1'']
   \<and> indexer_state (committed (snd (indexEvents (sample_sdk (sample_response [approval ''e1'' 5]))
         sample_config (sample_db 0 [False, False, False, False, False, True]))))
     = indexer_state (committed (sample_db 0 []))"
  by (simp add: run_defs)

text \<open>
  Claim C1, amended: persistence is two steps, the transaction of \<open>storeEvents\<close>
  and then the update of the progress row. For a cycle whose statements all run on one
  client of the pool, with no transaction open on it when the cycle starts: if
  \<open>storeEvents\<close> fails, the cycle fails with the same error and the committed
  tables are as before the cycle, so nothing of the batch is stored and the progress is
  unchanged; when the \<open>try\<close> block of \<open>storeEvents\<close> fails and the
  \<open>ROLLBACK\<close> of its \<open>catch\<close> is carried out, \<open>storeEvents\<close> throws the
  error of the \<open>try\<close> block and leaves no transaction open; if \<open>storeEvents\<close>
  succeeds and the update of the progress fails, the cycle fails, every decoded event of
  the batch is in the committed table and the progress rows are unchanged; if the cycle
  succeeds on a non-empty batch, every decoded event of the batch is in the committed
  table and the progress rows are those that the \<open>UPDATE\<close> makes of the old ones;
  however a cycle fails, the progress rows are unchanged; and whenever the progress rows
  have changed, the cycle has succeeded and every decoded event of the batch is in the
  committed table.
\<close>

theorem C1_store_then_advance:
  assumes "one_client d" and "indexEvents k cfg d = (r, d')"
  shows "(\<forall>resp d1 err d2. fetch_batch k cfg d = (Inr resp, d1) \<longrightarrow> events resp \<noteq> [] \<longrightarrow>
            storeEvents (processEvents (toXDR k) (events resp)) d1 = (Inl err, d2) \<longrightarrow>
            r = Inl err \<and> d' = d2 \<and> committed d' = committed d)
       \<and> (\<forall>evs err d1 rows d2. evs \<noteq> [] \<longrightarrow> store_try evs d = (Inl err, d1) \<longrightarrow>
            query Rollback d1 = (Inr rows, d2) \<longrightarrow>
            storeEvents evs d = (Inl err, d2) \<and> pending d2 0 = None)
       \<and> (\<forall>resp d1 d2 err. fetch_batch k cfg d = (Inr resp, d1) \<longrightarrow> events resp \<noteq> [] \<longrightarrow>
            storeEvents (processEvents (toXDR k) (events resp)) d1 = (Inr (), d2) \<longrightarrow>
            updateIndexerState (ledger (last (events resp))) (cursor_or_empty (cursor resp)) d2
              = (Inl err, d') \<longrightarrow>
            r = Inl err
            \<and> set (map eventId (processEvents (toXDR k) (events resp)))
                \<subseteq> set (event_ids (committed d'))
            \<and> indexer_state (committed d') = indexer_state (committed d))
       \<and> (\<forall>resp d1. fetch_batch k cfg d = (Inr resp, d1) \<longrightarrow> events resp \<noteq> [] \<longrightarrow>
            r = Inr () \<longrightarrow>
            set (map eventId (processEvents (toXDR k) (events resp)))
                \<subseteq> set (event_ids (committed d'))
            \<and> indexer_state (committed d')
                = update_state (ledger (last (events resp))) (cursor_or_empty (cursor resp))
                    (indexer_state (committed d)))
       \<and> (\<forall>err. r = Inl err \<longrightarrow> indexer_state (committed d') = indexer_state (committed d))
       \<and> (\<forall>resp d1. fetch_batch k cfg d = (Inr resp, d1) \<longrightarrow>
            indexer_state (committed d') \<noteq> indexer_state (committed d) \<longrightarrow>
            r = Inr ()
            \<and> set (map eventId (processEvents (toXDR k) (events resp)))
                \<subseteq> set (event_ids (committed d')))"
proof (intro conjI allI impI)
  fix resp d1 err d2
  assume f: "fetch_batch k cfg d = (Inr resp, d1)" and ne: "events resp \<noteq> []"
    and s: "storeEvents (processEvents (toXDR k) (events resp)) d1 = (Inl err, d2)"
  from fetch_batch_frame [OF f] fetch_batch_one_client [OF assms(1) f]
  have "one_client d1" "committed d1 = committed d" by simp_all
  with s have "committed d2 = committed d" using storeEvents_fail [of d1 _ err d2] by simp
  moreover from assms(2) f ne s have "r = Inl err" "d' = d2" by (simp_all add: indexEvents_def)
  ultimately show "r = Inl err" "d' = d2" "committed d' = committed d" by simp_all
next
  fix evs err d1 rows d2
  assume "evs \<noteq> []" "store_try evs d = (Inl err, d1)" "query Rollback d1 = (Inr rows, d2)"
  from storeEvents_rollback [OF assms(1) this]
  show "storeEvents evs d = (Inl err, d2)" "pending d2 0 = None"
    by (simp_all add: one_client_def)
next
  fix resp d1 d2 err
  assume f: "fetch_batch k cfg d = (Inr resp, d1)" and ne: "events resp \<noteq> []"
    and s: "storeEvents (processEvents (toXDR k) (events resp)) d1 = (Inr (), d2)"
    and u: "updateIndexerState (ledger (last (events resp))) (cursor_or_empty (cursor resp)) d2
              = (Inl err, d')"
  from fetch_batch_frame [OF f] fetch_batch_one_client [OF assms(1) f]
  have f1: "one_client d1" "committed d1 = committed d" by simp_all
  from assms(2) f ne s u show "r = Inl err" by (simp add: indexEvents_def)
  from updateIndexerState_fail [OF u] have c: "committed d' = committed d2" .
  from storeEvents_ok [OF f1(1) s] c
  show "set (map eventId (processEvents (toXDR k) (events resp)))
          \<subseteq> set (event_ids (committed d'))" by simp
  from storeEvents_ok [OF f1(1) s] c f1(2)
  show "indexer_state (committed d') = indexer_state (committed d)" by simp
next
  fix resp d1
  assume f: "fetch_batch k cfg d = (Inr resp, d1)" and ne: "events resp \<noteq> []"
    and ok: "r = Inr ()"
  from fetch_batch_frame [OF f] fetch_batch_one_client [OF assms(1) f]
  have f1: "one_client d1" "committed d1 = committed d" by simp_all
  let ?evs = "processEvents (toXDR k) (events resp)"
  from assms f have "set (map eventId ?evs) \<subseteq> set (event_ids (committed d'))
       \<and> indexer_state (committed d')
           = update_state (ledger (last (events resp))) (cursor_or_empty (cursor resp))
               (indexer_state (committed d))"
  proof (cases rule: indexEvents_cases)
    case empty
    with ne show ?thesis by simp
  next
    case (store_failed err)
    with ok show ?thesis by simp
  next
    case (update_failed err d2)
    with ok show ?thesis by simp
  next
    case (advanced d2)
    from storeEvents_ok [OF f1(1) advanced(3)] advanced(6) f1(2)
    show ?thesis by (simp add: event_ids_def)
  qed
  then show "set (map eventId ?evs) \<subseteq> set (event_ids (committed d'))"
    "indexer_state (committed d')
           = update_state (ledger (last (events resp))) (cursor_or_empty (cursor resp))
               (indexer_state (committed d))"
    by simp_all
next
  fix err
  assume e: "r = Inl err"
  obtain r1 d1 where f: "fetch_batch k cfg d = (r1, d1)" by (cases "fetch_batch k cfg d")
  show "indexer_state (committed d') = indexer_state (committed d)"
  proof (cases r1)
    case (Inl a)
    with assms(2) f have "d' = d1" by (simp add: indexEvents_def)
    with fetch_batch_frame [OF f] show ?thesis by simp
  next
    case (Inr resp)
    from fetch_batch_frame [OF f] fetch_batch_one_client [OF assms(1) f]
    have f1: "one_client d1" "committed d1 = committed d" by simp_all
    from assms f [unfolded Inr] show ?thesis
    proof (cases rule: indexEvents_cases)
      case empty
      with e show ?thesis by simp
    next
      case (store_failed err)
      then show ?thesis by simp
    next
      case (update_failed err d2)
      from storeEvents_ok [OF f1(1) update_failed(3)] f1(2) update_failed(6)
      show ?thesis by simp
    next
      case (advanced d2)
      with e show ?thesis by simp
    qed
  qed
next
  fix resp d1
  assume f: "fetch_batch k cfg d = (Inr resp, d1)"
    and ch: "indexer_state (committed d') \<noteq> indexer_state (committed d)"
  from fetch_batch_frame [OF f] fetch_batch_one_client [OF assms(1) f]
  have f1: "one_client d1" "committed d1 = committed d" by simp_all
  let ?evs = "processEvents (toXDR k) (events resp)"
  from assms f show "r = Inr ()"
  proof (cases rule: indexEvents_cases)
    case empty
    then show ?thesis by simp
  next
    case (store_failed err)
    with ch show ?thesis by simp
  next
    case (update_failed err d2)
    from storeEvents_ok [OF f1(1) update_failed(3)] f1(2) update_failed(6) ch
    show ?thesis by simp
  next
    case (advanced d2)
    then show ?thesis by simp
  qed
  from assms f show "set (map eventId ?evs) \<subseteq> set (event_ids (committed d'))"
  proof (cases rule: indexEvents_cases)
    case empty
    with ch f1 show ?thesis by simp
  next
    case (store_failed err)
    with ch show ?thesis by simp
  next
    case (update_failed err d2)
    from storeEvents_ok [OF f1(1) update_failed(3)] f1(2) update_failed(6) ch
    show ?thesis by simp
  next
    case (advanced d2)
    from storeEvents_ok [OF f1(1) advanced(3)] advanced(6)
    show ?thesis by (simp add: event_ids_def)
  qed
qed

theorem C1_store_then_advance_witness:
  "one_client (sample_db 0 [])
   \<and> fst (indexEvents (sample_sdk (sample_response [approval ''e0'' 99, loan_request]))
         sample_config (sample_db 0 [])) = Inl DataError
   \<and> committed (snd (indexEvents (sample_sdk (sample_response [approval ''e0'' 99, loan_request]))
         sample_config (sample_db 0 [])))
       = committed (sample_db 0 [])
   \<and> pending (snd (indexEvents (sample_sdk (sample_response [approval ''e0'' 99, loan_request]))
         sample_config (sample_db 0 []))) 0 = None"
  using C1_store_then_advance [of "sample_db 0 []"
      "sample_sdk (sample_response [approval ''e0'' 99, loan_request])"
      sample_config
      "fst (indexEvents (sample_sdk (sample_response [approval ''e0'' 99, loan_request]))
         sample_config (sample_db 0 []))"
      "snd (indexEvents (sample_sdk (sample_response [approval ''e0'' 99, loan_request]))
         sample_config (sample_db 0 []))"]
  by (simp add: run_defs)

text \<open>
  Claim C2: the request of a cycle starts at the stored last indexed ledger plus one.
  With a state row at ledger 100 the cycle does not ask for ledger 101: the row object
  of the driver has the key \<open>last_indexed_ledger\<close>, the code reads
  \<open>lastIndexedLedger\<close>, which is \<open>undefined\<close>, and \<open>undefined + 1\<close> is
  \<open>NaN\<close>. The lemma \<open>cycle_request_fields\<close> above has the general statement,
  with the parts of the claim that hold: the limit, the contract filter, and the start
  at ledger 1 when there is no state row.
\<close>

theorem C2_start_ledger_not_a_number:
  "map_option startLedger (cycle_request sample_config (sample_db 100 [])) = Some JNaN"
  by (simp add: run_defs)

text \<open>
  Claim C3, as stated: the progress is left unchanged by a cycle that persists no event,
  also when the raw batch is not empty. It is not: the one event of the batch below has
  an unrecognised kind and is skipped, no row is written, the cycle succeeds, and the
  progress moves from ledger 0 to ledger 5.
\<close>

theorem C3_counterexample:
  "fst (indexEvents (sample_sdk (sample_response
         [contract_event ''e9'' 5 [ScvSymbol ''Transfer'', ScvAddress ''GA''] (ScvI128 7)]))
       sample_config (sample_db 0 [])) = Inr ()
   \<and> loan_events (committed (snd (indexEvents (sample_sdk (sample_response
         [contract_event ''e9'' 5 [ScvSymbol ''Transfer'', ScvAddress ''GA''] (ScvI128 7)]))
       sample_config (sample_db 0 [])))) = []
   \<and> map last_indexed_ledger (indexer_state (committed (snd (indexEvents (sample_sdk (sample_response
         [contract_event ''e9'' 5 [ScvSymbol ''Transfer'', ScvAddress ''GA''] (ScvI128 7)]))
       sample_config (sample_db 0 []))))) = [5]"
  by (simp add: run_defs)

text \<open>
  Claim C3, amended: for a successful cycle whose statements all run on one client of
  the pool, with no transaction open on it when the cycle starts. With an empty raw
  batch the committed tables are left as they were. With a non-empty raw batch the
  progress rows are those that the \<open>UPDATE\<close> makes of the old ones, with the ledger
  of the last raw event of the batch and the cursor of the source, whether or not that
  event or any other was decoded or stored: when there is no progress row there is none
  afterwards, and when there is one, the newest row holds that ledger and that cursor.
  That ledger is the maximum over the raw batch when the batch is in ledger order, and
  the last indexed ledger does not decrease over the cycle when no raw event of the
  batch lies below it.
\<close>

theorem C3_progress_is_last_raw_ledger:
  assumes "one_client d" and "indexEvents k cfg d = (Inr u, d')"
    and "fetch_batch k cfg d = (Inr resp, d1)"
  shows "(events resp = [] \<longrightarrow> committed d' = committed d)
       \<and> (events resp \<noteq> [] \<longrightarrow>
            indexer_state (committed d')
              = update_state (ledger (last (events resp))) (cursor_or_empty (cursor resp))
                  (indexer_state (committed d)))
       \<and> (events resp \<noteq> [] \<longrightarrow> indexer_state (committed d) = [] \<longrightarrow>
            indexer_state (committed d') = [])
       \<and> (events resp \<noteq> [] \<longrightarrow>
            (\<forall>m. newest (indexer_state (committed d)) = Some m \<longrightarrow>
               newest (indexer_state (committed d'))
                 = Some (m \<lparr> last_indexed_ledger := ledger (last (events resp)),
                              last_indexed_cursor := Some (cursor_or_empty (cursor resp)) \<rparr>)))
       \<and> (events resp \<noteq> [] \<longrightarrow> sorted (map ledger (events resp)) \<longrightarrow>
            ledger (last (events resp)) = Max (set (map ledger (events resp))))
       \<and> (\<forall>m m'. newest (indexer_state (committed d)) = Some m \<longrightarrow>
            newest (indexer_state (committed d')) = Some m' \<longrightarrow>
            (\<forall>e \<in> set (events resp). last_indexed_ledger m \<le> ledger e) \<longrightarrow>
            last_indexed_ledger m \<le> last_indexed_ledger m')"
proof -
  from fetch_batch_frame [OF assms(3)] fetch_batch_one_client [OF assms(1,3)]
  have f1: "one_client d1" "committed d1 = committed d" by simp_all
  have srt: "events resp \<noteq> [] \<longrightarrow> sorted (map ledger (events resp)) \<longrightarrow>
            ledger (last (events resp)) = Max (set (map ledger (events resp)))"
    using last_is_Max [of "map ledger (events resp)"] by (simp add: last_map)
  from assms show ?thesis
  proof (cases rule: indexEvents_cases)
    case empty
    with f1 srt show ?thesis by simp
  next
    case (store_failed err)
    then show ?thesis by simp
  next
    case (update_failed err d2)
    then show ?thesis by simp
  next
    case (advanced d2)
    from storeEvents_ok [OF f1(1) advanced(3)] f1(2)
    have same: "indexer_state (committed d2) = indexer_state (committed d)" by simp
    have upd: "indexer_state (committed d')
              = update_state (ledger (last (events resp))) (cursor_or_empty (cursor resp))
                  (indexer_state (committed d))"
      using advanced(6) same by simp
    have none: "indexer_state (committed d) = [] \<longrightarrow> indexer_state (committed d') = []"
      using upd by (simp add: update_state_def)
    have new: "\<And>m. newest (indexer_state (committed d)) = Some m \<Longrightarrow>
        newest (indexer_state (committed d'))
          = Some (m \<lparr> last_indexed_ledger := ledger (last (events resp)),
                      last_indexed_cursor := Some (cursor_or_empty (cursor resp)) \<rparr>)"
      using upd by (simp add: newest_update_state)
    have mono: "\<And>m m'. newest (indexer_state (committed d)) = Some m \<Longrightarrow>
        newest (indexer_state (committed d')) = Some m' \<Longrightarrow>
        (\<forall>e \<in> set (events resp). last_indexed_ledger m \<le> ledger e) \<Longrightarrow>
        last_indexed_ledger m \<le> last_indexed_ledger m'"
    proof -
      fix m m'
      assume a: "newest (indexer_state (committed d)) = Some m"
        "newest (indexer_state (committed d')) = Some m'"
        "\<forall>e \<in> set (events resp). last_indexed_ledger m \<le> ledger e"
      from new [OF a(1)] a(2) have "last_indexed_ledger m' = ledger (last (events resp))" by auto
      moreover from advanced(1) have "last (events resp) \<in> set (events resp)" by simp
      ultimately show "last_indexed_ledger m \<le> last_indexed_ledger m'" using a(3) by simp
    qed
    from advanced(1) srt upd none new mono show ?thesis by blast
  qed
qed

theorem C3_progress_is_last_raw_ledger_witness:
  "one_client (sample_db 0 [])
   \<and> fst (indexEvents (sample_sdk (sample_response sample_batch)) sample_config (sample_db 0 [])) = Inr ()
   \<and> event_ids (committed
         (snd (indexEvents (sample_sdk (sample_response sample_batch)) sample_config (sample_db 0 []))))
       = [''e1'', ''e2'', ''e3'']
   \<and> map_option last_indexed_ledger (newest (indexer_state (committed
         (snd (indexEvents (sample_sdk (sample_response sample_batch)) sample_config (sample_db 0 []))))))
       = Some 102"
  using C3_progress_is_last_raw_ledger [of "sample_db 0 []"
      "sample_sdk (sample_response sample_batch)" sample_config "()"
      "snd (indexEvents (sample_sdk (sample_response sample_batch)) sample_config (sample_db 0 []))"
      "\<lparr> events = sample_batch, cursor = Some ''c1'' \<rparr>"
      "snd (fetch_batch (sample_sdk (sample_response sample_batch)) sample_config (sample_db 0 []))"]
  by (simp add: run_defs)

text \<open>
  Claim C4, as stated: a raw event whose second topic fails to decode as an address is
  skipped. It is not: \<open>decodeAddress\<close> catches the failure and returns the empty
  string, so the event below, whose second topic is a boolean, is decoded, with an
  empty borrower.
\<close>

theorem C4_counterexample:
  "address (ScvBool True) = Throws TypeError \<and>
   map_option borrower (processEvent (\<lambda>x. [])
      (contract_event ''e1'' 5 [ScvSymbol ''LoanRequested'', ScvBool True] (ScvI128 7))) = Some []"
  by (simp add: processEvent_def contract_event_def js_index_def decodeEventType_def
      decodeAddress_def)

text \<open>
  Claim C4, amended: a contract event with a recognised kind and a contract identifier
  whose second topic is present but fails to decode as an address (the accessor throws,
  or returns \<open>undefined\<close>) still yields a decoded event, whose borrower is the empty
  string, and the events before and after it in the batch are processed as they would be
  without it.
\<close>

theorem C4_address_failure_keeps_event:
  assumes "etype e = ''contract''"
    and "js_index (topic e) 0 = Some t0"
    and "decodeEventType t0 = Some ty"
    and "js_index (topic e) 1 = Some t1"
    and "address t1 = Throws err \<or> address t1 = Undefined"
    and "contractId e = Some cid"
  shows "\<exists>evt. processEvent enc e = Some evt \<and> borrower evt = []
           \<and> processEvents enc (pre @ e # post)
               = processEvents enc pre @ evt # processEvents enc post"
  using assms
  by (auto simp: processEvent_def decodeAddress_def processEvents_append Let_def
      split: option.splits)

theorem C4_address_failure_keeps_event_witness:
  "\<exists>evt. processEvent (\<lambda>x. [])
       (contract_event ''e1'' 5 [ScvSymbol ''LoanRequested'', ScvString ''x''] (ScvI128 7)) = Some evt
     \<and> borrower evt = []
     \<and> processEvents (\<lambda>x. [])
         ([] @ contract_event ''e1'' 5 [ScvSymbol ''LoanRequested'', ScvString ''x''] (ScvI128 7)
            # [contract_event ''e2'' 6 [ScvSymbol ''LoanRepaid'', ScvAddress ''GA''] (ScvI128 9)])
       = processEvents (\<lambda>x. []) [] @ evt
           # processEvents (\<lambda>x. [])
               [contract_event ''e2'' 6 [ScvSymbol ''LoanRepaid'', ScvAddress ''GA''] (ScvI128 9)]"
  by (rule C4_address_failure_keeps_event
        [of _ "ScvSymbol ''LoanRequested''" LoanRequested "ScvString ''x''" TypeError "''CTEST''"])
     (simp_all add: contract_event_def js_index_def decodeEventType_def)

text \<open>
  Claim C5, as stated: a payload that fails to decode as a signed 128-bit amount gives
  \<open>amount = undefined\<close>. It gives the string \<open>"0"\<close>: that is what
  \<open>decodeAmount\<close> returns from its \<open>catch\<close>.
\<close>

theorem C5_counterexample:
  "i128 (ScvBool True) = Throws TypeError \<and>
   map_option amount (processEvent (\<lambda>x. [])
      (contract_event ''e1'' 5 [ScvSymbol ''LoanRequested'', ScvAddress ''GA''] (ScvBool True)))
     = Some (Some ''0'')"
  by (simp add: processEvent_def contract_event_def js_index_def decodeEventType_def
      decodeAmount_def)

text \<open>
  Claim C5, amended: the payload never decides whether an event is decoded; a payload
  that fails to decode as a signed 128-bit amount (the accessor throws, or returns
  \<open>undefined\<close>) gives the amount \<open>"0"\<close>; and the amount of a decoded event is a
  string in every case. (What the amount is when the payload does decode is left out:
  see \<open>decode_success_paths\<close> above.)
\<close>

theorem C5_amount_decoding:
  "(processEvent enc (e \<lparr> evalue := v \<rparr>) = None \<longleftrightarrow> processEvent enc e = None)
   \<and> (processEvent enc e = Some evt \<longrightarrow>
        (\<forall>err. i128 (evalue e) = Throws err \<longrightarrow> amount evt = Some ''0'')
      \<and> (i128 (evalue e) = Undefined \<longrightarrow> amount evt = Some ''0'')
      \<and> (\<exists>s. amount evt = Some s))"
  by (auto simp: processEvent_def decodeAmount_def Let_def split: option.splits if_splits)

theorem C5_amount_decoding_witness:
  "processEvent (\<lambda>x. []) (approval ''e1'' 100) = Some sample_event
   \<and> i128 (evalue (approval ''e1'' 100)) = Throws TypeError
   \<and> amount sample_event = Some ''0''"
  using C5_amount_decoding [where enc = "\<lambda>x. []" and e = "approval ''e1'' 100"
      and v = "ScvI128 5" and evt = sample_event]
  by (simp add: run_defs)






text \<open>
  Claim C8, as stated: after a \<open>stop\<close> that arrives while a cycle is in flight no
  further cycle is scheduled. One is: the last line of \<open>poll\<close> arms the timer
  without looking at \<open>isRunning\<close>, so the stopped controller below is left with an
  armed timer.
\<close>

theorem C8_counterexample:
  "\<not> isRunning (fst (poll_stop_in_flight (sample_sdk (sample_response sample_batch))
        (sample_indexer True None) (sample_runtime (sample_db 0 []) [] 0)))
   \<and> timers (snd (poll_stop_in_flight (sample_sdk (sample_response sample_batch))
        (sample_indexer True None) (sample_runtime (sample_db 0 []) [] 0))) = [(0, 30000)]"
  by (simp add: run_defs)

text \<open>
  Claim C8, amended: when \<open>stop\<close> arrives while a cycle is in flight, the cycle
  completes and the database is the one it leaves; the controller is stopped; the last
  line of \<open>poll\<close> still arms one timer with the configured delay, next to the
  timers that \<open>stop\<close> left, and keeps its handle; but a timer that fires on the
  stopped controller runs no cycle and arms nothing: the controller and the database
  stay as they are and the fired timer is gone. A \<open>stop\<close> disarms the timer whose
  handle the controller holds, and \<open>start\<close> on a running controller changes nothing.
\<close>

theorem C8_stop_in_flight:
  assumes "isRunning ix"
  shows "database (snd (poll_stop_in_flight k ix w)) = snd (indexEvents k (config ix) (database w))
       \<and> \<not> isRunning (fst (poll_stop_in_flight k ix w))
       \<and> pollTimeout (fst (poll_stop_in_flight k ix w)) = Some (next_timer w)
       \<and> timers (snd (poll_stop_in_flight k ix w))
           = timers (snd (stop ix w)) @ [(next_timer w, pollIntervalMs (config ix))]
       \<and> (\<forall>h. fst (timer_fires k h (fst (poll_stop_in_flight k ix w)) (snd (poll_stop_in_flight k ix w)))
                = fst (poll_stop_in_flight k ix w)
              \<and> database (snd (timer_fires k h (fst (poll_stop_in_flight k ix w))
                                 (snd (poll_stop_in_flight k ix w))))
                = database (snd (poll_stop_in_flight k ix w))
              \<and> set (timers (snd (timer_fires k h (fst (poll_stop_in_flight k ix w))
                                 (snd (poll_stop_in_flight k ix w)))))
                \<subseteq> set (timers (snd (poll_stop_in_flight k ix w))) - {(h, pollIntervalMs (config ix))})
       \<and> (\<forall>h. pollTimeout ix = Some h \<longrightarrow> h \<notin> fst ` set (timers (snd (stop ix w))))
       \<and> start k ix w = (ix, w)"
proof -
  obtain r d' where i: "indexEvents k (config ix) (database w) = (r, d')"
    by (cases "indexEvents k (config ix) (database w)")
  obtain ix1 w1 where p: "poll_stop_in_flight k ix w = (ix1, w1)"
    by (cases "poll_stop_in_flight k ix w")
  from p i assms have ix1: "\<not> isRunning ix1" and db1: "database w1 = d'"
    and pt: "pollTimeout ix1 = Some (next_timer w)"
    and tm: "timers w1 = timers (snd (stop ix w)) @ [(next_timer w, pollIntervalMs (config ix))]"
    by (auto simp: poll_stop_in_flight_def poll_cycle_def poll_rearm_def stop_def setTimeout_def
        clearTimeout_def split: sum.splits option.splits)
  have fire: "\<And>h. timer_fires k h ix1 w1 = (if h \<in> set (map fst (timers w1)) then (ix1, clearTimeout h w1) else (ix1, w1))"
    using ix1 by (simp add: timer_fires_def poll_def)
  have t: "\<And>h. set (timers (snd (timer_fires k h ix1 w1))) \<subseteq> set (timers w1) - {(h, pollIntervalMs (config ix))}"
  proof -
    fix h
    show "set (timers (snd (timer_fires k h ix1 w1))) \<subseteq> set (timers w1) - {(h, pollIntervalMs (config ix))}"
    proof (cases "h \<in> set (map fst (timers w1))")
      case True
      then show ?thesis by (auto simp: fire clearTimeout_def)
    next
      case False
      then have "(h, pollIntervalMs (config ix)) \<notin> set (timers w1)" by force
      with False show ?thesis by (simp add: fire)
    qed
  qed
  have st: "\<forall>h. pollTimeout ix = Some h \<longrightarrow> h \<notin> fst ` set (timers (snd (stop ix w)))"
    by (auto simp: stop_def clearTimeout_def)
  from assms have sr: "start k ix w = (ix, w)" by (simp add: start_def)
  from p i ix1 db1 pt tm fire t st sr show ?thesis by (simp add: clearTimeout_def)
qed

theorem C8_stop_in_flight_witness:
  "isRunning (sample_indexer True (Some 3))
   \<and> event_ids (committed (database (snd (poll_stop_in_flight
         (sample_sdk (sample_response sample_batch)) (sample_indexer True (Some 3))
         (sample_runtime (sample_db 0 []) [(3, 30000)] 4))))) = [''e1'', ''e2'', ''e3'']
   \<and> timers (snd (poll_stop_in_flight
         (sample_sdk (sample_response sample_batch)) (sample_indexer True (Some 3))
         (sample_runtime (sample_db 0 []) [(3, 30000)] 4))) = [(4, 30000)]
   \<and> database (snd (timer_fires (sample_sdk (sample_response sample_batch)) 4
         (fst (poll_stop_in_flight
            (sample_sdk (sample_response sample_batch)) (sample_indexer True (Some 3))
            (sample_runtime (sample_db 0 []) [(3, 30000)] 4)))
         (snd (poll_stop_in_flight
            (sample_sdk (sample_response sample_batch)) (sample_indexer True (Some 3))
            (sample_runtime (sample_db 0 []) [(3, 30000)] 4)))))
       = database (snd (poll_stop_in_flight
            (sample_sdk (sample_response sample_batch)) (sample_indexer True (Some 3))
            (sample_runtime (sample_db 0 []) [(3, 30000)] 4)))
   \<and> timers (snd (stop (sample_indexer True (Some 3))
         (sample_runtime (sample_db 0 []) [(3, 30000)] 4))) = []"
  using C8_stop_in_flight [of "sample_indexer True (Some 3)"
      "sample_sdk (sample_response sample_batch)"
      "sample_runtime (sample_db 0 []) [(3, 30000)] 4"]
  by (simp add: run_defs)



text \<open>
  Claim C10, as stated: every raw event whose third topic is present but fails to decode
  as an unsigned 32-bit integer still yields a decoded event, with \<open>loanId = 0\<close>. Not
  every one: the event below has such a third topic and an unrecognised kind, and yields
  no decoded event at all.
\<close>

theorem C10_counterexample:
  "u32 (ScvString ''seven'') = Throws TypeError
   \<and> processEvent (\<lambda>x. [])
       (contract_event ''e1'' 5
          [ScvSymbol ''Transfer'', ScvAddress ''GA'', ScvString ''seven''] (ScvI128 7)) = None"
  by (simp add: processEvent_def contract_event_def js_index_def decodeEventType_def)

text \<open>
  Claim C10, amended: a contract event with a recognised kind, a second topic and a
  contract identifier is decoded whatever its third topic is; when the third topic is
  present and \<open>x.u32()\<close> throws on it, the decoded event has \<open>loanId = 0\<close>; when the
  third topic is absent, \<open>loanId\<close> is absent; and \<open>loanId\<close> is present whenever
  the third topic is present and carries a payload. (A third topic without payload is
  left out.)
\<close>

theorem C10_loanId_zero_on_failed_decode:
  assumes "etype e = ''contract''"
    and "js_index (topic e) 0 = Some t0"
    and "decodeEventType t0 = Some ty"
    and "js_index (topic e) 1 = Some t1"
    and "contractId e = Some cid"
  shows "\<exists>evt. processEvent enc e = Some evt
           \<and> (\<forall>t2 err. js_index (topic e) 2 = Some t2 \<longrightarrow> u32 t2 = Throws err \<longrightarrow> loanId evt = Some 0)
           \<and> (js_index (topic e) 2 = None \<longrightarrow> loanId evt = None)
           \<and> (\<forall>t2. js_index (topic e) 2 = Some t2 \<longrightarrow> u32 t2 \<noteq> Undefined \<longrightarrow> loanId evt \<noteq> None)"
  using assms
  by (auto simp: processEvent_def decodeLoanId_def Let_def split: option.splits got.splits)

theorem C10_loanId_zero_on_failed_decode_witness:
  "u32 (ScvString ''seven'') = Throws TypeError
   \<and> map_option loanId (processEvent (\<lambda>x. [])
       (contract_event ''e1'' 5
          [ScvSymbol ''LoanRequested'', ScvAddress ''GA'', ScvString ''seven''] (ScvI128 7)))
     = Some (Some 0)"
  using C10_loanId_zero_on_failed_decode [where enc = "\<lambda>x. []"
      and e = "contract_event ''e1'' 5
          [ScvSymbol ''LoanRequested'', ScvAddress ''GA'', ScvString ''seven''] (ScvI128 7)"
      and ?t0.0 = "ScvSymbol ''LoanRequested''" and ty = LoanRequested
      and ?t1.0 = "ScvAddress ''GA''" and cid = "''CTEST''"]
  by (auto simp: contract_event_def js_index_def decodeEventType_def)

end
